theory Spec2Isabelle
  imports Main "HOL-Library.AList" "HOL-Library.Sublist"
begin

section \<open>Time, errors and the outside world\<close>

text \<open>
  A \<open>time.Time\<close> is the number of nanoseconds since the Unix epoch and a
  \<open>time.Duration\<close> a number of nanoseconds, both as unbounded integers; where the
  library saturates at the range of \<open>int64\<close> the saturation is written out.
\<close>

type_synonym time = int
type_synonym duration = int

definition Second :: duration where
  "Second = 1000000000"

definition Minute :: duration where
  "Minute = 60 * Second"

definition Hour :: duration where
  "Hour = 60 * Minute"

definition After :: "time \<Rightarrow> time \<Rightarrow> bool" where
  "After t u = (u < t)"

text \<open>
  An error built by \<open>fmt.Errorf\<close> is kept as its format string and arguments; an error
  that comes out of a library (a failed process, a decoder) is opaque.
\<close>

datatype error = Errorf string "arg list" | LibError string
  and arg = ArgStr string | ArgErr error | ArgTime time
    | Sprintf string "arg list" | JoinArgs "arg list" string

record ServiceAccountConfig =
  Name :: string
  Namespace :: string
  ServerURL :: string
  ClusterName :: string
  User :: string
  ExpiresAt :: time
  CreatedAt :: string

text \<open>
  A process started through \<open>os/exec\<close>: what is run, and what comes back.
\<close>

record command =
  argv :: "string list"
  stdin :: string

record completed =
  err :: "error option"
  stdout :: string
  stderr :: string

record rwmutex =
  writer :: bool
  readers :: nat

text \<open>
  The world a call runs in. \<open>clock\<close> lists the successive readings of \<open>time.Now()\<close>
  and \<open>reads\<close> counts those taken so far; \<open>respond\<close> is the cluster and the operating
  system, answering a command from what was run before it; \<open>history\<close> is that log, each
  command with what it returned.
  \<open>rfc3339\<close> is \<open>Time.Format(time.RFC3339)\<close> in the time zone of the process.
  \<open>activeSessions\<close> is the package-level map, as an association list in some iteration
  order, and \<open>activeSessionsMutex\<close> the lock beside it.
\<close>

record world =
  clock :: "nat \<Rightarrow> time"
  reads :: nat
  respond :: "(command \<times> completed) list \<Rightarrow> command \<Rightarrow> completed"
  history :: "(command \<times> completed) list"
  rfc3339 :: "time \<Rightarrow> string"
  activeSessions :: "(string \<times> ServiceAccountConfig) list"
  activeSessionsMutex :: rwmutex

text \<open>
  A call either returns, or blocks for ever on a lock that its own goroutine holds, or
  ends the process with a panic or a fatal runtime error. What the program prints is not
  part of the model.
\<close>

datatype 'a exec = Returns 'a world | Blocks | Fatal

fun value_of :: "'a exec \<Rightarrow> 'a option" where
  "value_of (Returns a w) = Some a"
| "value_of Blocks = None"
| "value_of Fatal = None"

fun history_after :: "'a exec \<Rightarrow> (command \<times> completed) list option" where
  "history_after (Returns a w) = Some (history w)"
| "history_after Blocks = None"
| "history_after Fatal = None"

fun commands_after :: "'a exec \<Rightarrow> command list option" where
  "commands_after (Returns a w) = Some (map fst (history w))"
| "commands_after Blocks = None"
| "commands_after Fatal = None"

fun sessions_after :: "'a exec \<Rightarrow> (string \<times> ServiceAccountConfig) list option" where
  "sessions_after (Returns a w) = Some (activeSessions w)"
| "sessions_after Blocks = None"
| "sessions_after Fatal = None"

text \<open>
  What a Go function with an \<open>error\<close> result does: it returns a value, returns an error,
  or panics.
\<close>

datatype 'a outcome = Ok 'a | Err error | Panic string

definition time_Now :: "world \<Rightarrow> time \<times> world" where
  "time_Now w = (clock w (reads w), w\<lparr>reads := Suc (reads w)\<rparr>)"

definition run :: "command \<Rightarrow> world \<Rightarrow> completed \<times> world" where
  "run c w =
     (let r = respond w (history w) c in (r, w\<lparr>history := history w @ [(c, r)]\<rparr>))"

definition kubectl :: "string list \<Rightarrow> command" where
  "kubectl args = \<lparr>argv = ''kubectl'' # args, stdin = []\<rparr>"

subsection \<open>sync.RWMutex, as one goroutine sees it\<close>

definition RLock :: "world \<Rightarrow> unit exec" where
  "RLock w =
     (let m = activeSessionsMutex w in
      if writer m then Blocks
      else Returns () (w\<lparr>activeSessionsMutex := m\<lparr>readers := Suc (readers m)\<rparr>\<rparr>))"

definition RUnlock :: "world \<Rightarrow> unit exec" where
  "RUnlock w =
     (let m = activeSessionsMutex w in
      if readers m = 0 then Fatal
      else Returns () (w\<lparr>activeSessionsMutex := m\<lparr>readers := readers m - 1\<rparr>\<rparr>))"

definition Lock :: "world \<Rightarrow> unit exec" where
  "Lock w =
     (let m = activeSessionsMutex w in
      if writer m \<or> 0 < readers m then Blocks
      else Returns () (w\<lparr>activeSessionsMutex := m\<lparr>writer := True\<rparr>\<rparr>))"

definition Unlock :: "world \<Rightarrow> unit exec" where
  "Unlock w =
     (let m = activeSessionsMutex w in
      if \<not> writer m then Fatal
      else Returns () (w\<lparr>activeSessionsMutex := m\<lparr>writer := False\<rparr>\<rparr>))"

section \<open>The session registry and the revoke path\<close>

text \<open>
  The map holds pointers. A configuration is written through its pointer only by
  \<open>GetTemporaryToken\<close>, which no caller runs on a registered one, so the map keeps the
  configurations themselves.
\<close>

definition RegisterSession :: "ServiceAccountConfig \<Rightarrow> world \<Rightarrow> unit exec" where
  "RegisterSession config w =
     (case Lock w of
        Blocks \<Rightarrow> Blocks
      | Fatal \<Rightarrow> Fatal
      | Returns _ w1 \<Rightarrow>
          Unlock (w1\<lparr>activeSessions := AList.update (Name config) config (activeSessions w1)\<rparr>))"

text \<open>
  The loop of \<open>CleanupTemporaryAccess\<close> over the map: \<open>time.Now()\<close> is read only for a
  session of the same user (\<open>&&\<close> is short-circuit), and the loop breaks at the first
  such session that has not expired.
\<close>

fun hasActiveSessions :: "ServiceAccountConfig \<Rightarrow> (string \<times> ServiceAccountConfig) list
    \<Rightarrow> world \<Rightarrow> bool \<times> world" where
  "hasActiveSessions config [] w = (False, w)"
| "hasActiveSessions config ((sid, session) # rest) w =
     (if User session = User config then
        (case time_Now w of (now, w1) \<Rightarrow>
           if \<not> After now (ExpiresAt session) then (True, w1)
           else hasActiveSessions config rest w1)
      else hasActiveSessions config rest w)"

definition delete_clusterrolebinding :: "ServiceAccountConfig \<Rightarrow> command" where
  "delete_clusterrolebinding config =
     kubectl [''delete'', ''clusterrolebinding'', Name config @ ''-admin'',
              ''--ignore-not-found=true'']"

definition delete_serviceaccount :: "ServiceAccountConfig \<Rightarrow> command" where
  "delete_serviceaccount config =
     kubectl [''delete'', ''serviceaccount'', ''-n'', Namespace config, Name config,
              ''--ignore-not-found=true'']"

text \<open>
  The two deletions of \<open>CleanupTemporaryAccess\<close>, with the list \<open>errs\<close> of the messages
  of those that failed.
\<close>

definition teardown :: "ServiceAccountConfig \<Rightarrow> world \<Rightarrow> arg list \<times> world" where
  "teardown config w =
     (case run (delete_clusterrolebinding config) w of (r1, w1) \<Rightarrow>
      (let errs1 = (case err r1 of
                      Some e \<Rightarrow> [Sprintf ''failed to delete clusterrolebinding: %v'' [ArgErr e]]
                    | None \<Rightarrow> [])
       in (case run (delete_serviceaccount config) w1 of (r2, w2) \<Rightarrow>
       (let errs2 = (case err r2 of
                       Some e \<Rightarrow> errs1 @ [Sprintf ''failed to delete serviceaccount: %v'' [ArgErr e]]
                     | None \<Rightarrow> errs1)
        in (errs2, w2)))))"

definition CleanupTemporaryAccess :: "ServiceAccountConfig \<Rightarrow> world \<Rightarrow> error option exec" where
  "CleanupTemporaryAccess config w =
     (case RLock w of
        Blocks \<Rightarrow> Blocks
      | Fatal \<Rightarrow> Fatal
      | Returns _ w1 \<Rightarrow>
          (case hasActiveSessions config (activeSessions w1) w1 of (active, w2) \<Rightarrow>
            (case RUnlock w2 of
               Blocks \<Rightarrow> Blocks
             | Fatal \<Rightarrow> Fatal
             | Returns _ w3 \<Rightarrow>
                 if active then Returns None w3
                 else (case teardown config w3 of (errs, w4) \<Rightarrow>
                       if 0 < length errs
                       then Returns (Some (Errorf ''cleanup errors: %s''
                                             [JoinArgs errs ''; ''])) w4
                       else Returns None w4))))"

text \<open>
  The spec's \<open>HasActiveForPrincipal(principal, now)\<close>, in the spec's words: some entry's
  principal matches and \<open>now < expiresAt\<close>.
\<close>

definition HasActiveForPrincipal :: "(string \<times> ServiceAccountConfig) list \<Rightarrow> string
    \<Rightarrow> time \<Rightarrow> bool" where
  "HasActiveForPrincipal registry pr now =
     (\<exists>(sid, session) \<in> set registry. User session = pr \<and> now < ExpiresAt session)"

section \<open>The periodic sweep\<close>

text \<open>
  The loop of \<open>cleanupExpiredSessions\<close> over the map, for the instant \<open>now\<close> read before
  it: an expired session is handed to \<open>CleanupTemporaryAccess\<close>, whose error is only
  printed, and its key is deleted when that call has returned. Deleting the current key
  while ranging over a Go map is allowed and every other entry is still visited once.
\<close>

fun cleanupLoop :: "time \<Rightarrow> (string \<times> ServiceAccountConfig) list \<Rightarrow> world \<Rightarrow> unit exec" where
  "cleanupLoop now [] w = Returns () w"
| "cleanupLoop now ((sid, session) # rest) w =
     (if After now (ExpiresAt session) then
        (case CleanupTemporaryAccess session w of
           Blocks \<Rightarrow> Blocks
         | Fatal \<Rightarrow> Fatal
         | Returns e w1 \<Rightarrow>
             cleanupLoop now rest
               (w1\<lparr>activeSessions := AList.delete sid (activeSessions w1)\<rparr>))
      else cleanupLoop now rest w)"

text \<open>
  \<open>cleanupExpiredSessions\<close> takes the write lock, and its deferred \<open>Unlock\<close> runs when
  the loop has returned.
\<close>

definition cleanupExpiredSessions :: "world \<Rightarrow> unit exec" where
  "cleanupExpiredSessions w =
     (case Lock w of
        Blocks \<Rightarrow> Blocks
      | Fatal \<Rightarrow> Fatal
      | Returns _ w1 \<Rightarrow>
          (case time_Now w1 of (now, w2) \<Rightarrow>
            (case cleanupLoop now (activeSessions w2) w2 of
               Blocks \<Rightarrow> Blocks
             | Fatal \<Rightarrow> Fatal
             | Returns _ w3 \<Rightarrow> Unlock w3)))"

section \<open>Library functions on strings\<close>

definition nl :: string where
  "nl = [CHR 0x0A]"

text \<open>
  \<open>strings.Split\<close> for a separator of one byte: \<open>n\<close> occurrences of the separator give
  \<open>n + 1\<close> parts, and the empty string gives one empty part.
\<close>

fun split_from :: "char \<Rightarrow> string \<Rightarrow> string \<Rightarrow> string list" where
  "split_from sep part [] = [rev part]"
| "split_from sep part (c # cs) =
     (if c = sep then rev part # split_from sep [] cs else split_from sep (c # part) cs)"

definition Split :: "string \<Rightarrow> char \<Rightarrow> string list" where
  "Split s sep = split_from sep [] s"

text \<open>
  \<open>bytes.TrimSpace\<close>: the white space of \<open>unicode.IsSpace\<close>, in UTF-8, is cut from
  both ends.
\<close>

definition white_space :: "string list" where
  "white_space =
     [[CHR 0x09], [CHR 0x0A], [CHR 0x0B], [CHR 0x0C], [CHR 0x0D], [CHR 0x20],
      [CHR 0xC2, CHR 0x85], [CHR 0xC2, CHR 0xA0], [CHR 0xE1, CHR 0x9A, CHR 0x80],
      [CHR 0xE2, CHR 0x80, CHR 0x80], [CHR 0xE2, CHR 0x80, CHR 0x81],
      [CHR 0xE2, CHR 0x80, CHR 0x82], [CHR 0xE2, CHR 0x80, CHR 0x83],
      [CHR 0xE2, CHR 0x80, CHR 0x84], [CHR 0xE2, CHR 0x80, CHR 0x85],
      [CHR 0xE2, CHR 0x80, CHR 0x86], [CHR 0xE2, CHR 0x80, CHR 0x87],
      [CHR 0xE2, CHR 0x80, CHR 0x88], [CHR 0xE2, CHR 0x80, CHR 0x89],
      [CHR 0xE2, CHR 0x80, CHR 0x8A], [CHR 0xE2, CHR 0x80, CHR 0xA8],
      [CHR 0xE2, CHR 0x80, CHR 0xA9], [CHR 0xE2, CHR 0x80, CHR 0xAF],
      [CHR 0xE2, CHR 0x81, CHR 0x9F], [CHR 0xE3, CHR 0x80, CHR 0x80]]"

definition space_at :: "string list \<Rightarrow> string \<Rightarrow> nat" where
  "space_at runes s =
     (case filter (\<lambda>r. take (length r) s = r) runes of [] \<Rightarrow> 0 | r # _ \<Rightarrow> length r)"

fun trim_front :: "nat \<Rightarrow> string list \<Rightarrow> string \<Rightarrow> string" where
  "trim_front 0 runes s = s"
| "trim_front (Suc k) runes s =
     (let n = space_at runes s in if n = 0 then s else trim_front k runes (drop n s))"

definition TrimSpace :: "string \<Rightarrow> string" where
  "TrimSpace s =
     (let t = trim_front (length s) white_space s
      in rev (trim_front (length t) (map rev white_space) (rev t)))"

text \<open>The verb \<open>%d\<close> of \<open>fmt\<close>, for an \<open>int\<close>.\<close>

function decimal :: "int \<Rightarrow> string" where
  "decimal n =
     (if n < 10 then [''0123456789'' ! nat n]
      else decimal (n div 10) @ [''0123456789'' ! nat (n mod 10)])"
  by pat_completeness auto
termination
  by (relation "measure nat") auto

declare decimal.simps [simp del]

definition Itoa :: "int \<Rightarrow> string" where
  "Itoa i = (if i < 0 then CHR ''-'' # decimal (- i) else decimal i)"

section \<open>Library decoders: base64url and JSON\<close>

text \<open>
  \<open>base64.RawURLEncoding.DecodeString\<close>: carriage returns and line feeds are skipped,
  every other byte must be of the URL alphabet (the padding \<open>=\<close> is not), four
  characters give three bytes, and a last group of two or three characters gives one or
  two bytes, its spare bits ignored; a last group of one character is an error.
\<close>

definition b64url_value :: "char \<Rightarrow> nat option" where
  "b64url_value c =
     (let n = (of_char c :: nat) in
      if 65 \<le> n \<and> n \<le> 90 then Some (n - 65)
      else if 97 \<le> n \<and> n \<le> 122 then Some (n - 71)
      else if 48 \<le> n \<and> n \<le> 57 then Some (n + 4)
      else if c = CHR ''-'' then Some 62
      else if c = CHR ''_'' then Some 63
      else None)"

fun b64_values :: "string \<Rightarrow> nat list option" where
  "b64_values [] = Some []"
| "b64_values (c # cs) =
     (if c = CHR 0x0A \<or> c = CHR 0x0D then b64_values cs
      else (case b64url_value c of
              None \<Rightarrow> None
            | Some v \<Rightarrow> (case b64_values cs of None \<Rightarrow> None | Some vs \<Rightarrow> Some (v # vs))))"

definition byte :: "nat \<Rightarrow> char" where
  "byte n = char_of (n mod 256)"

fun b64_quanta :: "nat list \<Rightarrow> string option" where
  "b64_quanta [] = Some []"
| "b64_quanta [a] = None"
| "b64_quanta [a, b] = Some [byte (a * 4 + b div 16)]"
| "b64_quanta [a, b, c] = Some [byte (a * 4 + b div 16), byte (b * 16 + c div 4)]"
| "b64_quanta (a # b # c # d # rest) =
     (case b64_quanta rest of
        None \<Rightarrow> None
      | Some bs \<Rightarrow>
          Some (byte (a * 4 + b div 16) # byte (b * 16 + c div 4) # byte (c * 64 + d) # bs))"

definition RawURLEncoding_DecodeString :: "string \<Rightarrow> string option" where
  "RawURLEncoding_DecodeString s =
     (case b64_values s of None \<Rightarrow> None | Some vs \<Rightarrow> b64_quanta vs)"

text \<open>
  JSON as \<open>encoding/json\<close> reads it. A number keeps its literal; a string is unquoted,
  an escape \<open>\u\<close> becoming UTF-8. (Go also replaces invalid UTF-8 in a string by U+FFFD;
  here such bytes stay as they are, and in neither form does the string equal an ASCII
  name.)
\<close>

datatype json = JNull | JBool bool | JNumber string | JString string
  | JArray "json list" | JObject "(string \<times> json) list"

definition is_ws :: "char \<Rightarrow> bool" where
  "is_ws c = (c = CHR 0x20 \<or> c = CHR 0x09 \<or> c = CHR 0x0D \<or> c = CHR 0x0A)"

definition skip_ws :: "string \<Rightarrow> string" where
  "skip_ws s = dropWhile is_ws s"

definition is_digit :: "char \<Rightarrow> bool" where
  "is_digit c = (48 \<le> (of_char c :: nat) \<and> (of_char c :: nat) \<le> 57)"

definition hex_value :: "char \<Rightarrow> nat option" where
  "hex_value c =
     (let n = (of_char c :: nat) in
      if 48 \<le> n \<and> n \<le> 57 then Some (n - 48)
      else if 97 \<le> n \<and> n \<le> 102 then Some (n - 87)
      else if 65 \<le> n \<and> n \<le> 70 then Some (n - 55)
      else None)"

text \<open>\<open>getu4\<close>, on what follows \<open>\u\<close>: four hexadecimal digits.\<close>

definition getu4 :: "string \<Rightarrow> nat option" where
  "getu4 s =
     (case map hex_value (take 4 s) of
        [Some a, Some b, Some c, Some d] \<Rightarrow> Some (((a * 16 + b) * 16 + c) * 16 + d)
      | _ \<Rightarrow> None)"

definition utf8_encode :: "nat \<Rightarrow> string" where
  "utf8_encode r =
     (if r < 0x80 then [byte r]
      else if r < 0x800 then [byte (0xC0 + r div 64), byte (0x80 + r mod 64)]
      else if r < 0x10000 then
        [byte (0xE0 + r div 4096), byte (0x80 + (r div 64) mod 64), byte (0x80 + r mod 64)]
      else [byte (0xF0 + r div 262144), byte (0x80 + (r div 4096) mod 64),
            byte (0x80 + (r div 64) mod 64), byte (0x80 + r mod 64)])"

definition is_surrogate :: "nat \<Rightarrow> bool" where
  "is_surrogate r = (0xD800 \<le> r \<and> r < 0xE000)"

text \<open>
  A \<open>\u\<close> escape, on what follows \<open>\u\<close>: the bytes it stands for and the number of
  input bytes taken. A high surrogate followed by an escaped low surrogate is one rune;
  any other surrogate is U+FFFD.
\<close>

definition unescape_u :: "string \<Rightarrow> (string \<times> nat) option" where
  "unescape_u s =
     (case getu4 s of
        None \<Rightarrow> None
      | Some r \<Rightarrow>
          if is_surrogate r then
            (case (if take 2 (drop 4 s) = [CHR 0x5C, CHR ''u''] then getu4 (drop 6 s) else None) of
               Some r2 \<Rightarrow>
                 if r < 0xDC00 \<and> 0xDC00 \<le> r2 \<and> r2 < 0xE000
                 then Some (utf8_encode ((r - 0xD800) * 1024 + (r2 - 0xDC00) + 0x10000), 10)
                 else Some (utf8_encode 0xFFFD, 4)
             | None \<Rightarrow> Some (utf8_encode 0xFFFD, 4))
          else Some (utf8_encode r, 4))"

definition simple_escape :: "char \<Rightarrow> char option" where
  "simple_escape c =
     (if c = CHR 0x22 \<or> c = CHR 0x5C \<or> c = CHR ''/'' then Some c
      else if c = CHR ''b'' then Some (CHR 0x08)
      else if c = CHR ''f'' then Some (CHR 0x0C)
      else if c = CHR ''n'' then Some (CHR 0x0A)
      else if c = CHR ''r'' then Some (CHR 0x0D)
      else if c = CHR ''t'' then Some (CHR 0x09)
      else None)"

text \<open>
  The inside of a JSON string, after its opening quote: the unquoted bytes read so far (in
  reverse), then the string and what follows its closing quote. A control character or a
  bad escape makes the text invalid.
\<close>

fun json_string :: "string \<Rightarrow> string \<Rightarrow> (string \<times> string) option" where
  "json_string acc [] = None"
| "json_string acc [c] = (if c = CHR 0x22 then Some (rev acc, []) else None)"
| "json_string acc (c # e # cs) =
     (if c = CHR 0x22 then Some (rev acc, e # cs)
      else if c = CHR 0x5C then
        (if e = CHR ''u'' then
           (case unescape_u cs of
              None \<Rightarrow> None
            | Some (bs, n) \<Rightarrow> json_string (rev bs @ acc) (drop n cs))
         else (case simple_escape e of
                 None \<Rightarrow> None
               | Some b \<Rightarrow> json_string (b # acc) cs))
      else if (of_char c :: nat) < 0x20 then None
      else json_string (c # acc) (e # cs))"

text \<open>
  A JSON number at the front of \<open>s\<close>: its literal and the rest. After a leading zero the
  integer part is over; a fraction and an exponent need a digit each.
\<close>

definition json_number :: "string \<Rightarrow> (string \<times> string) option" where
  "json_number s =
     (let sign = (if take 1 s = ''-'' then ''-'' else []);
          s1 = drop (length sign) s;
          ds = (if take 1 s1 = ''0'' then ''0'' else takeWhile is_digit s1);
          s2 = drop (length ds) s1;
          fs = (if take 1 s2 = ''.'' then CHR ''.'' # takeWhile is_digit (drop 1 s2) else []);
          s3 = drop (length fs) s2;
          es = (if take 1 s3 = ''e'' \<or> take 1 s3 = ''E'' then
                  (let g = (if take 1 (drop 1 s3) = ''+'' \<or> take 1 (drop 1 s3) = ''-''
                            then take 2 s3 else take 1 s3)
                   in g @ takeWhile is_digit (drop (length g) s3))
                else []);
          s4 = drop (length es) s3
      in if ds = [] \<or> length fs = 1 \<or> (es \<noteq> [] \<and> \<not> is_digit (last es)) then None
         else Some (sign @ ds @ fs @ es, s4))"

text \<open>
  One JSON value at the front of the text, by recursive descent. \<open>fuel\<close> bounds the calls
  (twice the length of the text is enough, since of two calls in a row one takes a byte),
  and \<open>depth\<close> counts the arrays and objects that are open: the scanner of
  \<open>encoding/json\<close> refuses more than 10000.
\<close>

fun json_value :: "nat \<Rightarrow> nat \<Rightarrow> string \<Rightarrow> (json \<times> string) option"
  and json_elements :: "nat \<Rightarrow> nat \<Rightarrow> json list \<Rightarrow> string \<Rightarrow> (json \<times> string) option"
  and json_members :: "nat \<Rightarrow> nat \<Rightarrow> (string \<times> json) list \<Rightarrow> string
    \<Rightarrow> (json \<times> string) option" where
  "json_value 0 depth s = None"
| "json_value (Suc fuel) depth s =
     (let t = skip_ws s in
      if take 1 t = ''{'' then
        (if 10000 \<le> depth then None
         else if take 1 (skip_ws (drop 1 t)) = ''}''
         then Some (JObject [], drop 1 (skip_ws (drop 1 t)))
         else json_members fuel (Suc depth) [] (drop 1 t))
      else if take 1 t = ''['' then
        (if 10000 \<le> depth then None
         else if take 1 (skip_ws (drop 1 t)) = '']''
         then Some (JArray [], drop 1 (skip_ws (drop 1 t)))
         else json_elements fuel (Suc depth) [] (drop 1 t))
      else if take 1 t = [CHR 0x22] then
        (case json_string [] (drop 1 t) of
           None \<Rightarrow> None
         | Some (str, rest) \<Rightarrow> Some (JString str, rest))
      else if take 4 t = ''true'' then Some (JBool True, drop 4 t)
      else if take 5 t = ''false'' then Some (JBool False, drop 5 t)
      else if take 4 t = ''null'' then Some (JNull, drop 4 t)
      else (case json_number t of
              None \<Rightarrow> None
            | Some (lit, rest) \<Rightarrow> Some (JNumber lit, rest)))"
| "json_elements 0 depth acc s = None"
| "json_elements (Suc fuel) depth acc s =
     (case json_value fuel depth s of
        None \<Rightarrow> None
      | Some (v, rest) \<Rightarrow>
          (let t = skip_ws rest in
           if take 1 t = '','' then json_elements fuel depth (acc @ [v]) (drop 1 t)
           else if take 1 t = '']'' then Some (JArray (acc @ [v]), drop 1 t)
           else None))"
| "json_members 0 depth acc s = None"
| "json_members (Suc fuel) depth acc s =
     (let t = skip_ws s in
      if take 1 t = [CHR 0x22] then
        (case json_string [] (drop 1 t) of
           None \<Rightarrow> None
         | Some (k, rest) \<Rightarrow>
             (let t1 = skip_ws rest in
              if take 1 t1 = '':'' then
                (case json_value fuel depth (drop 1 t1) of
                   None \<Rightarrow> None
                 | Some (v, rest1) \<Rightarrow>
                     (let t2 = skip_ws rest1 in
                      if take 1 t2 = '','' then json_members fuel depth (acc @ [(k, v)]) (drop 1 t2)
                      else if take 1 t2 = ''}'' then Some (JObject (acc @ [(k, v)]), drop 1 t2)
                      else None))
              else None))
      else None)"

text \<open>The whole text is one value between white space (\<open>checkValid\<close>).\<close>

definition json_parse :: "string \<Rightarrow> json option" where
  "json_parse s =
     (case json_value (2 * length s + 2) 0 s of
        None \<Rightarrow> None
      | Some (v, rest) \<Rightarrow> if skip_ws rest = [] then Some v else None)"

text \<open>
  \<open>strconv.ParseInt(lit, 10, 64)\<close> on the literal of a JSON number: an optional sign and
  digits only, within the range of \<open>int64\<close>.
\<close>

definition digits_value :: "string \<Rightarrow> int" where
  "digits_value ds = foldl (\<lambda>n c. 10 * n + (of_char c - 48)) 0 ds"

definition ParseInt64 :: "string \<Rightarrow> int option" where
  "ParseInt64 lit =
     (let ds = (if take 1 lit = ''-'' then drop 1 lit else lit);
          n = (if take 1 lit = ''-'' then - digits_value ds else digits_value ds)
      in if ds \<noteq> [] \<and> list_all is_digit ds \<and> - (2 ^ 63) \<le> n \<and> n < 2 ^ 63
         then Some n else None)"

definition to_upper :: "char \<Rightarrow> char" where
  "to_upper c =
     (if 97 \<le> (of_char c :: nat) \<and> (of_char c :: nat) \<le> 122
      then char_of ((of_char c :: nat) - 32) else c)"

text \<open>
  A key of a JSON object names the field \<open>Exp\<close> (tag \<open>exp\<close>) when it is that name up to
  the case of its letters.
\<close>

definition names_exp :: "string \<Rightarrow> bool" where
  "names_exp k = (map to_upper k = ''EXP'')"

text \<open>
  The members of an object, stored one after the other into \<open>claims.Exp\<close>: \<open>null\<close>
  leaves the field as it is, an integer literal sets it, and any other value is a type
  error, which is saved (the first one) while decoding goes on.
\<close>

fun store_members :: "(string \<times> json) list \<Rightarrow> int \<times> error option \<Rightarrow> int \<times> error option" where
  "store_members [] st = st"
| "store_members ((k, v) # ms) (exp, saved) =
     (if names_exp k then
        (case v of
           JNull \<Rightarrow> store_members ms (exp, saved)
         | JNumber lit \<Rightarrow>
             (case ParseInt64 lit of
                Some n \<Rightarrow> store_members ms (n, saved)
              | None \<Rightarrow> store_members ms
                  (exp, (if saved = None then Some (LibError ''json.UnmarshalTypeError'')
                         else saved)))
         | _ \<Rightarrow> store_members ms
                  (exp, (if saved = None then Some (LibError ''json.UnmarshalTypeError'')
                         else saved)))
      else store_members ms (exp, saved))"

text \<open>
  \<open>json.Unmarshal(payload, &claims)\<close> for \<open>claims\<close> of type \<open>struct { Exp int64 }\<close>,
  zero before the call: the value of \<open>Exp\<close> afterwards, or the error.
\<close>

definition Unmarshal_claims :: "string \<Rightarrow> error + int" where
  "Unmarshal_claims payload =
     (case json_parse payload of
        None \<Rightarrow> Inl (LibError ''json.SyntaxError'')
      | Some JNull \<Rightarrow> Inr 0
      | Some (JObject ms) \<Rightarrow>
          (case store_members ms (0, None) of
             (exp, None) \<Rightarrow> Inr exp
           | (exp, Some e) \<Rightarrow> Inl e)
      | Some _ \<Rightarrow> Inl (LibError ''json.UnmarshalTypeError''))"

section \<open>The expiry verifier\<close>

definition maxDuration :: duration where
  "maxDuration = 2 ^ 63 - 1"

definition minDuration :: duration where
  "minDuration = - (2 ^ 63)"

text \<open>\<open>Time.Sub\<close> saturates at the range of a \<open>Duration\<close>.\<close>

definition Sub :: "time \<Rightarrow> time \<Rightarrow> duration" where
  "Sub t u = max minDuration (min maxDuration (t - u))"

definition Abs :: "duration \<Rightarrow> duration" where
  "Abs d = (if 0 \<le> d then d else if d = minDuration then maxDuration else - d)"

text \<open>
  \<open>time.Unix(sec, 0)\<close>: a \<open>Time\<close> stores seconds since the year 1 in an \<open>int64\<close>, and the
  addition of the offset of 1970 wraps.
\<close>

definition unixToInternal :: int where
  "unixToInternal = 62135596800"

definition wrap64 :: "int \<Rightarrow> int" where
  "wrap64 i = (i + 2 ^ 63) mod 2 ^ 64 - 2 ^ 63"

definition Unix :: "int \<Rightarrow> time" where
  "Unix sec = (wrap64 (sec + unixToInternal) - unixToInternal) * Second"

definition verifyTokenExpiry :: "string \<Rightarrow> time \<Rightarrow> error option" where
  "verifyTokenExpiry token expectedExpiry =
     (let parts = Split token (CHR ''.'') in
      if length parts \<noteq> 3 then Some (Errorf ''invalid token format'' [])
      else
        (case RawURLEncoding_DecodeString (parts ! 1) of
           None \<Rightarrow> Some (Errorf ''error decoding token: %v''
                            [ArgErr (LibError ''base64.CorruptInputError'')])
         | Some payload \<Rightarrow>
        (case Unmarshal_claims payload of
           Inl e \<Rightarrow> Some (Errorf ''error parsing token claims: %v'' [ArgErr e])
         | Inr exp \<Rightarrow>
             (let tokenExpiry = Unix exp in
              if Minute < Abs (Sub tokenExpiry expectedExpiry)
              then Some (Errorf ''token expiry mismatch: expected %s, got %s''
                           [ArgTime expectedExpiry, ArgTime tokenExpiry])
              else None))))"

section \<open>Creating the service account\<close>

definition verifyClusterAccess :: "world \<Rightarrow> error option \<times> world" where
  "verifyClusterAccess w =
     (case run (kubectl [''auth'', ''can-i'', ''create'', ''serviceaccount'']) w of (r, w1) \<Rightarrow>
        (case err r of
           Some e \<Rightarrow> (Some (Errorf (''no cluster access: %v'' @ nl @ ''kubectl output: %s'')
                               [ArgErr e, ArgStr (stderr r)]), w1)
         | None \<Rightarrow> (None, w1)))"

definition getCurrentUser :: "world \<Rightarrow> string outcome \<times> world" where
  "getCurrentUser w =
     (case run \<lparr>argv = [''whoami''], stdin = []\<rparr> w of (r, w1) \<Rightarrow>
        (case err r of
           Some e \<Rightarrow> (Err e, w1)
         | None \<Rightarrow> (Ok (TrimSpace (stdout r)), w1)))"

definition getClusterInfo :: "world \<Rightarrow> (string \<times> string) outcome \<times> world" where
  "getClusterInfo w =
     (case run (kubectl [''cluster-info'']) w of (r, w1) \<Rightarrow>
        (case err r of
           Some e \<Rightarrow> (Err (Errorf (''cannot access cluster: %v'' @ nl @ ''kubectl output: %s'')
                              [ArgErr e, ArgStr (stderr r)]), w1)
         | None \<Rightarrow>
        (case run (kubectl [''config'', ''view'', ''--minify'', ''-o'',
                            ''jsonpath={.clusters[0].name}'']) w1 of (rn, w2) \<Rightarrow>
        (case err rn of
           Some e \<Rightarrow> (Err (Errorf ''error getting cluster name: %v'' [ArgErr e]), w2)
         | None \<Rightarrow>
        (case run (kubectl [''config'', ''view'', ''--minify'', ''-o'',
                            ''jsonpath={.clusters[0].cluster.server}'']) w2 of (rs, w3) \<Rightarrow>
        (case err rs of
           Some e \<Rightarrow> (Err (Errorf ''error getting server URL: %v'' [ArgErr e]), w3)
         | None \<Rightarrow>
             if length (stdout rn) = 0 \<or> length (stdout rs) = 0
             then (Err (Errorf ''invalid cluster info: name=%q, url=%q''
                          [ArgStr (stdout rn), ArgStr (stdout rs)]), w3)
             else (Ok (TrimSpace (stdout rn), TrimSpace (stdout rs)), w3)))))))"

definition get_serviceaccount :: "ServiceAccountConfig \<Rightarrow> command" where
  "get_serviceaccount config =
     kubectl [''get'', ''serviceaccount'', Name config, ''-n'', Namespace config,
              ''-o'', ''jsonpath={.metadata.name}'']"

text \<open>\<open>time.Sleep\<close>: the time that goes by shows in the later readings of the clock.\<close>

definition Sleep :: "duration \<Rightarrow> world \<Rightarrow> world" where
  "Sleep d w = w"

text \<open>The loop of \<open>waitForServiceAccount\<close>, by the attempts that are left.\<close>

fun waitAttempts :: "nat \<Rightarrow> ServiceAccountConfig \<Rightarrow> world \<Rightarrow> error option \<times> world" where
  "waitAttempts 0 config w =
     (Some (Errorf ''timeout waiting for service account to be ready'' []), w)"
| "waitAttempts (Suc n) config w =
     (case run (get_serviceaccount config) w of (r, w1) \<Rightarrow>
        if err r = None \<and> 0 < length (stdout r) then (None, w1)
        else waitAttempts n config (Sleep Second w1))"

definition waitForServiceAccount :: "ServiceAccountConfig \<Rightarrow> world \<Rightarrow> error option \<times> world" where
  "waitForServiceAccount config w = waitAttempts 10 config w"

definition exists_serviceaccount :: "ServiceAccountConfig \<Rightarrow> command" where
  "exists_serviceaccount config =
     kubectl [''get'', ''serviceaccount'', Name config, ''-n'', Namespace config,
              ''--ignore-not-found'', ''-o'', ''jsonpath={.metadata.name}'']"

definition serviceAccountExists :: "ServiceAccountConfig \<Rightarrow> world \<Rightarrow> bool \<times> world" where
  "serviceAccountExists config w =
     (case run (exists_serviceaccount config) w of (r, w1) \<Rightarrow> (0 < length (stdout r), w1))"

definition serviceAccountTemplate :: "ServiceAccountConfig \<Rightarrow> string" where
  \<open>serviceAccountTemplate c = concat (map (\<lambda>l. l @ nl)
     [[],
      ''apiVersion: v1'',
      ''kind: ServiceAccount'',
      ''metadata:'',
      ''  name: '' @ Name c,
      ''  namespace: '' @ Namespace c,
      ''  labels:'',
      ''    kubconfig.io/managed-by: "kubconfig-cli"'',
      ''    kubconfig.io/user: "'' @ User c @ ''"'',
      ''  annotations:'',
      ''    kubconfig.io/created-by: "'' @ User c @ ''"'',
      ''    kubconfig.io/created-at: "'' @ CreatedAt c @ ''"'',
      ''---'',
      ''apiVersion: rbac.authorization.k8s.io/v1'',
      ''kind: ClusterRoleBinding'',
      ''metadata:'',
      ''  name: '' @ Name c @ ''-admin'',
      ''  labels:'',
      ''    kubconfig.io/managed-by: "kubconfig-cli"'',
      ''    kubconfig.io/user: "'' @ User c @ ''"'',
      ''  annotations:'',
      ''    kubconfig.io/created-by: "'' @ User c @ ''"'',
      ''    kubconfig.io/created-at: "'' @ CreatedAt c @ ''"'',
      ''subjects:'',
      ''- kind: ServiceAccount'',
      ''  name: '' @ Name c,
      ''  namespace: '' @ Namespace c,
      ''roleRef:'',
      ''  kind: ClusterRole'',
      ''  name: cluster-admin'',
      ''  apiGroup: rbac.authorization.k8s.io''])\<close>

definition apply_manifest :: "ServiceAccountConfig \<Rightarrow> command" where
  "apply_manifest config =
     \<lparr>argv = [''kubectl'', ''apply'', ''-f'', ''-''], stdin = serviceAccountTemplate config\<rparr>"

text \<open>
  \<open>createResources\<close>: the template is a constant that parses and every field it names
  exists, so only the \<open>kubectl apply\<close> can fail.
\<close>

definition createResources :: "ServiceAccountConfig \<Rightarrow> world \<Rightarrow> error option \<times> world" where
  "createResources config w =
     (case run (apply_manifest config) w of (r, w1) \<Rightarrow>
        (case err r of
           Some e \<Rightarrow> (Some (Errorf (''error creating resources: %v'' @ nl @ ''kubectl output: %s'')
                               [ArgErr e, ArgStr (stderr r)]), w1)
         | None \<Rightarrow> (None, w1)))"

text \<open>
  The first part of \<open>CreateTemporaryAccess\<close>, up to the configuration it builds: the
  access check, the user, the cluster, and two readings of the clock.
\<close>

definition prepareAccess :: "duration \<Rightarrow> world \<Rightarrow> ServiceAccountConfig outcome \<times> world" where
  "prepareAccess d w =
     (case verifyClusterAccess w of
        (Some e, w1) \<Rightarrow> (Err (Errorf ''cluster access check failed: %v'' [ArgErr e]), w1)
      | (None, w1) \<Rightarrow>
     (case getCurrentUser w1 of
        (Err e, w2) \<Rightarrow> (Err e, w2)
      | (Panic m, w2) \<Rightarrow> (Panic m, w2)
      | (Ok user, w2) \<Rightarrow>
     (case getClusterInfo w2 of
        (Err e, w3) \<Rightarrow> (Err e, w3)
      | (Panic m, w3) \<Rightarrow> (Panic m, w3)
      | (Ok (clusterName, serverURL), w3) \<Rightarrow>
     (case time_Now w3 of (t1, w4) \<Rightarrow>
     (case time_Now w4 of (t2, w5) \<Rightarrow>
        (Ok \<lparr>Name = user @ ''-user'', Namespace = ''kube-system'',
               ServerURL = serverURL, ClusterName = clusterName, User = user,
               ExpiresAt = t1 + d, CreatedAt = rfc3339 w5 t2\<rparr>, w5))))))"

definition CreateTemporaryAccess :: "duration \<Rightarrow> world \<Rightarrow> ServiceAccountConfig outcome \<times> world" where
  "CreateTemporaryAccess d w =
     (case prepareAccess d w of
        (Err e, w5) \<Rightarrow> (Err e, w5)
      | (Panic m, w5) \<Rightarrow> (Panic m, w5)
      | (Ok config, w5) \<Rightarrow>
     (case serviceAccountExists config w5 of
        (True, w6) \<Rightarrow> (Ok config, w6)
      | (False, w6) \<Rightarrow>
     (case createResources config w6 of
        (Some e, w7) \<Rightarrow> (Err e, w7)
      | (None, w7) \<Rightarrow>
     (case waitForServiceAccount config w7 of
        (Some e, w8) \<Rightarrow> (Err (Errorf ''service account not ready: %v'' [ArgErr e]), w8)
      | (None, w8) \<Rightarrow> (Ok config, w8)))))"

text \<open>The calls of \<open>kubectl apply\<close> in a log.\<close>

definition is_apply :: "command \<Rightarrow> bool" where
  "is_apply c = (argv c = [''kubectl'', ''apply'', ''-f'', ''-''])"

definition applies :: "(command \<times> completed) list \<Rightarrow> nat" where
  "applies h = length (filter (\<lambda>(c, r). is_apply c) h)"

section \<open>Issuing the token\<close>

text \<open>
  \<open>time.Until(t)\<close> reads the clock. \<open>int(d.Seconds())\<close> is \<open>d\<close> in whole seconds,
  truncated towards zero (the floating-point value of \<open>Seconds\<close> is exact enough for
  that as long as \<open>d\<close> is below some 48 days in size).
\<close>

definition Until :: "time \<Rightarrow> world \<Rightarrow> duration \<times> world" where
  "Until t w = (case time_Now w of (now, w1) \<Rightarrow> (Sub t now, w1))"

definition whole_seconds :: "duration \<Rightarrow> int" where
  "whole_seconds d = sgn d * (\<bar>d\<bar> div Second)"

definition create_token :: "ServiceAccountConfig \<Rightarrow> int \<Rightarrow> command" where
  "create_token config durationSeconds =
     kubectl [''create'', ''token'', Name config, ''--namespace'', Namespace config,
              ''--duration'', Itoa durationSeconds @ ''s'']"

text \<open>
  \<open>GetTemporaryToken\<close> writes \<open>ExpiresAt\<close> through the pointer it is given: the
  configuration as it is afterwards is returned beside the result. The loading animation
  and the message only print.
\<close>

definition GetTemporaryToken :: "ServiceAccountConfig \<Rightarrow> world
    \<Rightarrow> string outcome \<times> ServiceAccountConfig \<times> world" where
  "GetTemporaryToken config w =
     (case waitForServiceAccount config w of
        (Some e, w1) \<Rightarrow> (Err (Errorf ''service account not ready: %v'' [ArgErr e]), config, w1)
      | (None, w1) \<Rightarrow>
     (case Until (ExpiresAt config) w1 of (remaining, w2) \<Rightarrow>
     (case (if whole_seconds remaining < 600
            then (case time_Now w2 of (now, w3) \<Rightarrow>
                    (600, config\<lparr>ExpiresAt := now + 10 * Minute\<rparr>, w3))
            else (whole_seconds remaining, config, w2)) of
        (durationSeconds, config1, w3) \<Rightarrow>
     (case run (create_token config1 durationSeconds) w3 of (r, w4) \<Rightarrow>
     (case err r of
        Some e \<Rightarrow> (Err (Errorf (''error creating token: %v'' @ nl @ ''Output: %s'')
                          [ArgErr e, ArgStr (stderr r)]), config1, w4)
      | None \<Rightarrow>
          (let token = TrimSpace (stdout r) in
           case verifyTokenExpiry token (ExpiresAt config1) of
             Some e \<Rightarrow> (Err (Errorf ''token verification failed: %v'' [ArgErr e]), config1, w4)
           | None \<Rightarrow> (Ok token, config1, w4)))))))"

text \<open>The requests for a token in a log, by the number of seconds they ask for.\<close>

definition is_token_request :: "command \<Rightarrow> bool" where
  "is_token_request c = (take 3 (argv c) = [''kubectl'', ''create'', ''token''])"

definition requests :: "(command \<times> completed) list \<Rightarrow> (command \<times> completed) list" where
  "requests h = filter (\<lambda>(c, r). is_token_request c) h"

section \<open>The configuration document\<close>

text \<open>
  What \<open>yaml.v3\<close> decodes into an \<open>interface{}\<close>: a mapping whose keys are all strings
  becomes a \<open>map[string]interface{}\<close> (\<open>YMap\<close>), any other mapping a
  \<open>map[interface{}]interface{}\<close> (\<open>YGenMap\<close>). A Go map is an association list here,
  read with \<open>map_of\<close> and written with \<open>AList.update\<close>.
\<close>

datatype yaml = YNull | YBool bool | YInt int | YFloat string | YStr string | YTime string
  | YSeq "yaml list" | YMap "(string \<times> yaml) list" | YGenMap "(yaml \<times> yaml) list"

text \<open>
  \<open>ModifyKubeconfigWithToken\<close>. The parser and the printer of the YAML library are the
  parameters \<open>unmarshal\<close> (into a \<open>map[string]interface{}\<close>) and \<open>marshal\<close>. A type
  assertion with one result panics when it fails; the message of the runtime names the
  dynamic type of the value as well, which is left out of the message here.
\<close>

definition ModifyKubeconfigWithToken :: "(string \<Rightarrow> error + (string \<times> yaml) list)
    \<Rightarrow> ((string \<times> yaml) list \<Rightarrow> error + string) \<Rightarrow> string \<Rightarrow> string \<Rightarrow> string outcome" where
  "ModifyKubeconfigWithToken unmarshal marshal originalConfig token =
     (case unmarshal originalConfig of
        Inl e \<Rightarrow> Err (Errorf ''error parsing kubeconfig: %v'' [ArgErr e])
      | Inr kubeconfig \<Rightarrow>
          (case map_of kubeconfig ''users'' of
             Some (YSeq (u # us)) \<Rightarrow>
               (case u of
                  YMap user \<Rightarrow>
                    (case map_of user ''user'' of
                       Some (YMap userData) \<Rightarrow>
                         (case marshal
                            (AList.update ''users''
                               (YSeq (YMap (AList.update ''user''
                                  (YMap (AList.update ''token'' (YStr token) userData)) user) # us))
                               kubeconfig) of
                            Inl e \<Rightarrow> Err e
                          | Inr out \<Rightarrow> Ok out)
                     | _ \<Rightarrow> Panic ''interface conversion: interface {} is not map[string]interface {}'')
                | _ \<Rightarrow> Panic ''interface conversion: interface {} is not map[string]interface {}'')
           | _ \<Rightarrow> Err (Errorf ''no users found in kubeconfig'' [])))"

text \<open>
  A call on the operating system that is not a process (a file, the environment, the
  bucket) is logged and answered like one.
\<close>

definition os_call :: "string \<Rightarrow> string list \<Rightarrow> string \<Rightarrow> command" where
  "os_call name args input = \<lparr>argv = name # args, stdin = input\<rparr>"

definition zeroTime :: time where
  "zeroTime = - unixToInternal * Second"

definition GetServiceAccountFromConfig :: "(string \<Rightarrow> error + (string \<times> yaml) list)
    \<Rightarrow> string \<Rightarrow> world \<Rightarrow> ServiceAccountConfig outcome \<times> world" where
  "GetServiceAccountFromConfig unmarshal configPath w =
     (case run (os_call ''os.ReadFile'' [configPath] []) w of (r, w1) \<Rightarrow>
     (case err r of
        Some e \<Rightarrow> (Err e, w1)
      | None \<Rightarrow>
     (case unmarshal (stdout r) of
        Inl e \<Rightarrow> (Err e, w1)
      | Inr kubeconfig \<Rightarrow>
          (case map_of kubeconfig ''contexts'' of
             Some (YSeq (c # cs)) \<Rightarrow>
               (case c of
                  YGenMap context \<Rightarrow>
                    (case map_of context (YStr ''name'') of
                       Some (YStr contextName) \<Rightarrow>
                         (let parts = Split contextName (CHR ''@'') in
                          if length parts \<noteq> 2
                          then (Err (Errorf ''invalid context name format'' []), w1)
                          else (Ok \<lparr>Name = parts ! 0, Namespace = ''kube-system'',
                                     ServerURL = [], ClusterName = [], User = [],
                                     ExpiresAt = zeroTime, CreatedAt = []\<rparr>, w1))
                     | _ \<Rightarrow> (Panic ''interface conversion: interface {} is not string'', w1))
                | _ \<Rightarrow> (Panic (''interface conversion: interface {} is not '' @
                                ''map[interface {}]interface {}''), w1))
           | _ \<Rightarrow> (Err (Errorf ''no contexts found'' []), w1)))))"

text \<open>
  A place in a document, from its root: a key of a mapping or an index of a sequence.
  Two places are on one branch when one is at or above the other.
\<close>

datatype step = Key string | Index nat | GenKey yaml

fun yaml_get :: "step list \<Rightarrow> yaml \<Rightarrow> yaml option" where
  "yaml_get [] y = Some y"
| "yaml_get (Key k # p) (YMap m) =
     (case map_of m k of None \<Rightarrow> None | Some v \<Rightarrow> yaml_get p v)"
| "yaml_get (Index i # p) (YSeq xs) = (if i < length xs then yaml_get p (xs ! i) else None)"
| "yaml_get (GenKey k # p) (YGenMap m) =
     (case map_of m k of None \<Rightarrow> None | Some v \<Rightarrow> yaml_get p v)"
| "yaml_get (s # p) y = None"

definition same_branch :: "step list \<Rightarrow> step list \<Rightarrow> bool" where
  "same_branch p q = (prefix p q \<or> prefix q p)"

definition token_path :: "step list" where
  "token_path = [Key ''users'', Index 0, Key ''user'', Key ''token'']"

section \<open>The commands\<close>

text \<open>
  The package variables of paths, computed from \<open>HOME\<close> when the process starts, and
  \<open>filepath.Join\<close> on two elements.
\<close>

record paths =
  CacheDir :: string
  SessionDir :: string
  KubeConfigFile :: string
  join :: "string \<Rightarrow> string \<Rightarrow> string"

definition HasSuffix :: "string \<Rightarrow> string \<Rightarrow> bool" where
  "HasSuffix s suf =
     (length suf \<le> length s \<and> drop (length s - length suf) s = suf)"

definition ValidateKubeconfigName :: "string \<Rightarrow> error option" where
  "ValidateKubeconfigName name =
     (if name = [] then Some (Errorf ''kubeconfig name cannot be empty'' [])
      else if \<not> HasSuffix name ''.cfg''
      then Some (Errorf ''kubeconfig name must end with .cfg'' [])
      else None)"

text \<open>
  The two deferred calls of \<open>ActivateCmd\<close>, last one first: \<open>KUBECONFIG\<close> is set back and
  the temporary file removed.
\<close>

definition activate_deferred :: "string \<Rightarrow> string \<Rightarrow> world \<Rightarrow> world" where
  "activate_deferred originalKubeconfig tempKubeconfig w =
     snd (run (os_call ''os.Remove'' [tempKubeconfig] [])
       (snd (run (os_call ''os.Setenv'' [''KUBECONFIG'', originalKubeconfig] []) w)))"

text \<open>
  \<open>ActivateCmd\<close>, for the argument \<open>kubeconfigName\<close> and for what
  \<open>GetDuration("session")\<close> returned. Messages are printed and not modelled; a panic ends
  the process.
\<close>

definition ActivateCmd :: "paths \<Rightarrow> (string \<Rightarrow> error + (string \<times> yaml) list)
    \<Rightarrow> ((string \<times> yaml) list \<Rightarrow> error + string) \<Rightarrow> string \<Rightarrow> duration \<times> error option
    \<Rightarrow> world \<Rightarrow> unit exec" where
  "ActivateCmd ps unmarshal marshal kubeconfigName flag w =
     (case flag of (sessionDuration, flagErr) \<Rightarrow>
      if flagErr \<noteq> None \<or> sessionDuration \<le> 0 then Returns () w
      else if 24 * Hour < sessionDuration then Returns () w
      else
     (let sessionDuration1 =
            (if sessionDuration < 10 * Minute then 10 * Minute else sessionDuration)
      in
     (case run (os_call ''config.LoadConfig'' [] []) w of (r1, w1) \<Rightarrow>
      if err r1 \<noteq> None then Returns () w1
      else if ValidateKubeconfigName kubeconfigName \<noteq> None then Returns () w1
      else
     (case run (os_call ''downloadFromS3'' [kubeconfigName] []) w1 of (r2, w2) \<Rightarrow>
      if err r2 \<noteq> None then Returns () w2
      else
     (let originalConfig = stdout r2;
          tempKubeconfig = join ps (CacheDir ps) (kubeconfigName @ ''.tmp'')
      in
     (case run (os_call ''os.WriteFile'' [tempKubeconfig] originalConfig) w2 of (r3, w3) \<Rightarrow>
      if err r3 \<noteq> None then Returns () w3
      else
     (case run (os_call ''os.Getenv'' [''KUBECONFIG''] []) w3 of (r4, w4) \<Rightarrow>
     (case run (os_call ''os.Setenv'' [''KUBECONFIG'', tempKubeconfig] []) w4 of (r5, w5) \<Rightarrow>
     (case CreateTemporaryAccess sessionDuration1 w5 of
        (Err e, w6) \<Rightarrow> Returns () (activate_deferred (stdout r4) tempKubeconfig w6)
      | (Panic m, w6) \<Rightarrow> Fatal
      | (Ok saConfig, w6) \<Rightarrow>
     (case GetTemporaryToken saConfig w6 of
        (Err e, saConfig1, w7) \<Rightarrow> Returns () (activate_deferred (stdout r4) tempKubeconfig w7)
      | (Panic m, saConfig1, w7) \<Rightarrow> Fatal
      | (Ok token, saConfig1, w7) \<Rightarrow>
     (case ModifyKubeconfigWithToken unmarshal marshal originalConfig token of
        Err e \<Rightarrow> Returns () (activate_deferred (stdout r4) tempKubeconfig w7)
      | Panic m \<Rightarrow> Fatal
      | Ok sessionKubeconfig \<Rightarrow>
          Returns () (activate_deferred (stdout r4) tempKubeconfig
            (snd (run (os_call ''os.WriteFile'' [KubeConfigFile ps] sessionKubeconfig)
                    w7))))))))))))))"

text \<open>
  \<open>DeactivateCmd\<close>. When the service account cannot be read from the configuration the
  command warns and goes on without the cleanup of the cluster.
\<close>

definition DeactivateCmd :: "paths \<Rightarrow> (string \<Rightarrow> error + (string \<times> yaml) list)
    \<Rightarrow> world \<Rightarrow> unit exec" where
  "DeactivateCmd ps unmarshal w =
     (case run (os_call ''os.Getenv'' [''KUBECONFIG''] []) w of (r1, w1) \<Rightarrow>
     (let currentConfig = (if stdout r1 = [] then KubeConfigFile ps else stdout r1) in
     (case GetServiceAccountFromConfig unmarshal currentConfig w1 of (sa, w2) \<Rightarrow>
      if (case sa of Panic m \<Rightarrow> True | _ \<Rightarrow> False) then Fatal
      else
     (case run (os_call ''os.WriteFile'' [KubeConfigFile ps] []) w2 of (r3, w3) \<Rightarrow>
      if err r3 \<noteq> None then Returns () w3
      else
     (case (case sa of
              Ok saConfig \<Rightarrow> CleanupTemporaryAccess saConfig w3
            | _ \<Rightarrow> Returns None w3) of
        Blocks \<Rightarrow> Blocks
      | Fatal \<Rightarrow> Fatal
      | Returns e w4 \<Rightarrow>
          Returns () (snd (run (os_call ''cleanupSessions'' [SessionDir ps] []) w4)))))))"

text \<open>
  The other commands (\<open>init\<close>, \<open>list\<close>, \<open>clear\<close>, \<open>current\<close>, \<open>cleanup\<close>, \<open>analyze\<close>,
  \<open>status\<close>, \<open>verify\<close>) name nothing of the session code of package \<open>config\<close>,
  whose map and lock are not exported: such a command runs some calls on the operating
  system and reads the clock some number of times.
\<close>

definition io_only :: "command list \<Rightarrow> nat \<Rightarrow> world \<Rightarrow> world" where
  "io_only cs k w = (fold (\<lambda>c v. snd (run c v)) cs w)\<lparr>reads := reads w + k\<rparr>"

text \<open>
  The states of a process: it starts with the empty map of \<open>make\<close> and the zero lock, and
  then runs commands and ticks of \<open>StartCleanupRoutine\<close>, each to its end.
\<close>

inductive reachable :: "world \<Rightarrow> bool" where
  start: "activeSessions w = [] \<Longrightarrow> activeSessionsMutex w = \<lparr>writer = False, readers = 0\<rparr>
    \<Longrightarrow> reachable w"
| activate: "reachable w \<Longrightarrow> ActivateCmd ps unmarshal marshal kubeconfigName flag w = Returns () w'
    \<Longrightarrow> reachable w'"
| deactivate: "reachable w \<Longrightarrow> DeactivateCmd ps unmarshal w = Returns () w' \<Longrightarrow> reachable w'"
| tick: "reachable w \<Longrightarrow> cleanupExpiredSessions w = Returns () w' \<Longrightarrow> reachable w'"
| other: "reachable w \<Longrightarrow> reachable (io_only cs k w)"

section \<open>What the decoder of the claims accepts\<close>

text \<open>
  The members of an object that name \<open>exp\<close>, in order; whether such a member can be
  stored in an \<open>int64\<close>; and the value that is left in the field after them.
\<close>

definition exp_members :: "(string \<times> json) list \<Rightarrow> json list" where
  "exp_members ms = map snd (filter (\<lambda>(k, v). names_exp k) ms)"

definition storable :: "json \<Rightarrow> bool" where
  "storable v = (case v of JNull \<Rightarrow> True | JNumber lit \<Rightarrow> ParseInt64 lit \<noteq> None | _ \<Rightarrow> False)"

definition stored :: "int \<Rightarrow> json list \<Rightarrow> int" where
  "stored x vs =
     foldl (\<lambda>acc v. case v of
                       JNumber lit \<Rightarrow> (case ParseInt64 lit of Some n \<Rightarrow> n | None \<Rightarrow> acc)
                     | _ \<Rightarrow> acc) x vs"

section \<open>Sample worlds\<close>

definition quiet :: "(command \<times> completed) list \<Rightarrow> command \<Rightarrow> completed" where
  "quiet h c = \<lparr>err = None, stdout = [], stderr = []\<rparr>"

definition failing :: "(command \<times> completed) list \<Rightarrow> command \<Rightarrow> completed" where
  "failing h c = \<lparr>err = Some (LibError ''exit status 1''), stdout = [], stderr = ''boom''\<rparr>"

definition alice :: "time \<Rightarrow> ServiceAccountConfig" where
  "alice t = \<lparr>Name = ''alice-user'', Namespace = ''kube-system'', ServerURL = ''https://k'',
              ClusterName = ''prod'', User = ''alice'', ExpiresAt = t, CreatedAt = []\<rparr>"

definition world_at :: "time \<Rightarrow> ((command \<times> completed) list \<Rightarrow> command \<Rightarrow> completed)
    \<Rightarrow> (string \<times> ServiceAccountConfig) list \<Rightarrow> world" where
  "world_at t env registry =
     \<lparr>clock = (\<lambda>n. t), reads = 0, respond = env, history = [], rfc3339 = Itoa,
      activeSessions = registry,
      activeSessionsMutex = \<lparr>writer = False, readers = 0\<rparr>\<rparr>"

text \<open>
  A decoded configuration document, a parser that returns it whatever it reads, and a
  printer that prints only the token of the first user.
\<close>

definition sample_kubeconfig :: "(string \<times> yaml) list" where
  "sample_kubeconfig =
     [(''apiVersion'', YStr ''v1''),
      (''clusters'', YSeq [YMap [(''name'', YStr ''prod''),
                                  (''cluster'', YMap [(''server'', YStr ''https://k'')])]]),
      (''contexts'', YSeq [YMap [(''name'', YStr ''alice-user@prod'')]]),
      (''users'', YSeq [YMap [(''name'', YStr ''admin''),
                               (''user'', YMap [(''client-key-data'', YStr ''k''),
                                                (''token'', YStr ''old'')])],
                        YMap [(''name'', YStr ''other'')]])]"

definition parse_as :: "(string \<times> yaml) list \<Rightarrow> string \<Rightarrow> error + (string \<times> yaml) list" where
  "parse_as doc s = Inr doc"

definition print_token :: "(string \<times> yaml) list \<Rightarrow> error + string" where
  "print_token doc =
     (case yaml_get token_path (YMap doc) of
        Some (YStr t) \<Rightarrow> Inr t
      | _ \<Rightarrow> Inl (LibError ''no token''))"

text \<open>
  A cluster for tests. The user is \<open>alice\<close> and the cluster \<open>prod\<close>; the service account
  is there when \<open>present\<close> holds or a manifest has been applied before; a token that is
  asked for expires at 1700000600 seconds after the epoch.
\<close>

definition answer :: "string \<Rightarrow> completed" where
  "answer s = \<lparr>err = None, stdout = s, stderr = []\<rparr>"

definition fake_cluster :: "bool \<Rightarrow> (command \<times> completed) list \<Rightarrow> command \<Rightarrow> completed" where
  "fake_cluster present h c =
     (if argv c = [''whoami''] then answer (''alice'' @ nl)
      else if take 3 (argv c) = [''kubectl'', ''get'', ''serviceaccount''] then
        (if present \<or> list_ex (\<lambda>(c', r). is_apply c') h then answer ''alice-user''
         else answer [])
      else if take 3 (argv c) = [''kubectl'', ''create'', ''token'']
      then answer (''h.eyJleHAiOjE3MDAwMDA2MDB9.s'' @ nl)
      else if take 3 (argv c) = [''kubectl'', ''config'', ''view''] then answer ''prod''
      else answer [])"

definition instant :: time where
  "instant = 1700000000 * Second"

text \<open>The configuration that \<open>CreateTemporaryAccess\<close> builds on that cluster at \<open>instant\<close>.\<close>

definition granted :: "duration \<Rightarrow> ServiceAccountConfig" where
  "granted d = \<lparr>Name = ''alice-user'', Namespace = ''kube-system'', ServerURL = ''prod'',
                 ClusterName = ''prod'', User = ''alice'', ExpiresAt = instant + d,
                 CreatedAt = Itoa instant\<rparr>"

definition sample_paths :: paths where
  "sample_paths = \<lparr>CacheDir = ''/home/alice/.kube/cache'', SessionDir = ''/home/alice/.kube/sessions'',
     KubeConfigFile = ''/home/alice/.kube/config'', join = (\<lambda>a b. a @ ''/'' @ b)\<rparr>"

text \<open>
  What a call leaves alone: the map, the lock, the clock and the environment stay, and
  the clock is only read further.
\<close>

definition frame :: "world \<Rightarrow> world \<Rightarrow> bool" where
  "frame w w' \<longleftrightarrow> activeSessions w' = activeSessions w \<and>
     activeSessionsMutex w' = activeSessionsMutex w \<and> clock w' = clock w \<and>
     rfc3339 w' = rfc3339 w \<and> respond w' = respond w \<and> reads w \<le> reads w'"

section \<open>Properties of the revoke path\<close>

lemma hasActiveSessions_frame:
  "hasActiveSessions config reg w = (b, w') \<Longrightarrow>
     history w' = history w \<and> activeSessions w' = activeSessions w \<and>
     activeSessionsMutex w' = activeSessionsMutex w \<and> respond w' = respond w \<and>
     clock w' = clock w \<and> reads w \<le> reads w'"
proof (induction reg arbitrary: w)
  case Nil
  then show ?case by simp
next
  case (Cons e reg)
  obtain sid session where e: "e = (sid, session)" by (cases e)
  show ?case
  proof (cases "User session = User config \<and> After (clock w (reads w)) (ExpiresAt session)")
    case True
    then have "hasActiveSessions config reg (w\<lparr>reads := Suc (reads w)\<rparr>) = (b, w')"
      using Cons.prems e by (simp add: time_Now_def)
    from Cons.IH [OF this] show ?thesis by simp
  next
    case False
    show ?thesis
    proof (cases "User session = User config")
      case True
      with False Cons.prems e show ?thesis by (auto simp: time_Now_def)
    next
      case False
      with Cons.prems e have "hasActiveSessions config reg w = (b, w')" by simp
      from Cons.IH [OF this] show ?thesis .
    qed
  qed
qed

lemma hasActiveSessions_cong:
  "clock w = clock v \<Longrightarrow> reads w = reads v \<Longrightarrow>
     fst (hasActiveSessions config reg w) = fst (hasActiveSessions config reg v)"
proof (induction reg arbitrary: w v)
  case Nil
  show ?case by simp
next
  case (Cons e reg)
  obtain k session where e: "e = (k, session)" by (cases e)
  have step: "fst (hasActiveSessions config reg (w\<lparr>reads := Suc (reads w)\<rparr>)) =
      fst (hasActiveSessions config reg (v\<lparr>reads := Suc (reads v)\<rparr>))"
    by (rule Cons.IH) (simp_all add: Cons.prems)
  show ?case
    using Cons.IH [OF Cons.prems] step Cons.prems e
    by (simp add: time_Now_def)
qed

lemma hasActiveSessions_found:
  assumes "(sid, s) \<in> set reg" "User s = User config"
    and "\<forall>i\<ge>reads w. \<not> After (clock w i) (ExpiresAt s)"
  shows "fst (hasActiveSessions config reg w)"
  using assms
proof (induction reg arbitrary: w)
  case Nil
  then show ?case by simp
next
  case (Cons e reg)
  obtain k session where e: "e = (k, session)" by (cases e)
  show ?case
  proof (cases "(sid, s) = e")
    case True
    with Cons.prems e show ?thesis by (simp add: time_Now_def)
  next
    case False
    with Cons.prems have mem: "(sid, s) \<in> set reg" by simp
    have later: "\<forall>i\<ge>reads (w\<lparr>reads := Suc (reads w)\<rparr>). \<not> After (clock (w\<lparr>reads := Suc (reads w)\<rparr>) i) (ExpiresAt s)"
      using Cons.prems(3) by simp
    from Cons.IH [OF mem Cons.prems(2) later] Cons.IH [OF mem Cons.prems(2) Cons.prems(3)]
    show ?thesis using e by (simp add: time_Now_def)
  qed
qed



lemma CleanupTemporaryAccess_cases:
  fixes config :: ServiceAccountConfig and w :: world
  assumes free: "\<not> writer (activeSessionsMutex w)"
  defines "r1 \<equiv> respond w (history w) (delete_clusterrolebinding config)"
  defines "r2 \<equiv> respond w (history w @ [(delete_clusterrolebinding config, r1)])
                   (delete_serviceaccount config)"
  defines "errs \<equiv>
      (case err r1 of
         Some e \<Rightarrow> [Sprintf ''failed to delete clusterrolebinding: %v'' [ArgErr e]]
       | None \<Rightarrow> []) @
      (case err r2 of
         Some e \<Rightarrow> [Sprintf ''failed to delete serviceaccount: %v'' [ArgErr e]]
       | None \<Rightarrow> [])"
  shows "\<exists>w'. activeSessions w' = activeSessions w \<and>
           activeSessionsMutex w' = activeSessionsMutex w \<and> respond w' = respond w \<and>
           clock w' = clock w \<and> reads w \<le> reads w' \<and>
           (if fst (hasActiveSessions config (activeSessions w) w)
            then CleanupTemporaryAccess config w = Returns None w' \<and> history w' = history w
            else CleanupTemporaryAccess config w =
                   Returns (if errs = [] then None
                            else Some (Errorf ''cleanup errors: %s'' [JoinArgs errs ''; ''])) w' \<and>
                 history w' = history w @ [(delete_clusterrolebinding config, r1),
                                           (delete_serviceaccount config, r2)])"
proof -
  define m where "m = activeSessionsMutex w"
  define w1 where "w1 = w\<lparr>activeSessionsMutex := m\<lparr>readers := Suc (readers m)\<rparr>\<rparr>"
  have rl: "RLock w = Returns () w1"
    using free by (simp add: RLock_def w1_def m_def Let_def)
  obtain b w2 where scan: "hasActiveSessions config (activeSessions w1) w1 = (b, w2)"
    by (cases "hasActiveSessions config (activeSessions w1) w1")
  have b: "b = fst (hasActiveSessions config (activeSessions w) w)"
    using hasActiveSessions_cong [of w1 w config "activeSessions w"] scan
    by (simp add: w1_def)
  note fr = hasActiveSessions_frame [OF scan]
  define w3 where "w3 = w2\<lparr>activeSessionsMutex := m\<rparr>"
  have ru: "RUnlock w2 = Returns () w3"
    using fr by (simp add: RUnlock_def w1_def w3_def Let_def)
  have w3: "activeSessions w3 = activeSessions w" "activeSessionsMutex w3 = activeSessionsMutex w"
    "respond w3 = respond w" "clock w3 = clock w" "reads w \<le> reads w3" "history w3 = history w"
    using fr by (simp_all add: w3_def w1_def m_def)
  show ?thesis
  proof (cases b)
    case True
    then have "CleanupTemporaryAccess config w = Returns None w3"
      by (simp add: CleanupTemporaryAccess_def rl scan ru)
    with True b w3 show ?thesis by auto
  next
    case False
    obtain es w4 where td: "teardown config w3 = (es, w4)"
      by (cases "teardown config w3")
    have w4: "activeSessions w4 = activeSessions w" "activeSessionsMutex w4 = activeSessionsMutex w"
      "respond w4 = respond w" "clock w4 = clock w" "reads w \<le> reads w4"
      "history w4 = history w @ [(delete_clusterrolebinding config, r1),
                                 (delete_serviceaccount config, r2)]"
      using td w3
      by (auto simp: teardown_def run_def Let_def r1_def r2_def split: option.splits)
    have es: "es = errs"
      using td w3
      by (auto simp: teardown_def run_def Let_def r1_def r2_def errs_def split: option.splits)
    have "CleanupTemporaryAccess config w =
        Returns (if errs = [] then None
                 else Some (Errorf ''cleanup errors: %s'' [JoinArgs errs ''; ''])) w4"
      using False es by (simp add: CleanupTemporaryAccess_def rl scan ru td)
    with False b w4 show ?thesis by auto
  qed
qed

text \<open>
  Claim C5. \<open>CleanupTemporaryAccess\<close> returns success without any deletion whenever some
  entry of the registry has the same principal and \<open>now < expiresAt\<close>, that is whenever
  \<open>HasActiveForPrincipal\<close> holds; it goes on to delete only when there is no such entry.
  Here \<open>now\<close> is an instant not before the readings of the clock taken during the call,
  and the lock is not held for writing by the caller. (The guard of the code is
  \<open>now \<le> expiresAt\<close>, which is implied.)
\<close>

theorem CleanupTemporaryAccess_shared_grant:
  assumes free: "\<not> writer (activeSessionsMutex w)"
    and upto: "\<forall>i\<ge>reads w. clock w i \<le> now"
  shows "(HasActiveForPrincipal (activeSessions w) (User config) now \<longrightarrow>
            value_of (CleanupTemporaryAccess config w) = Some None \<and>
            history_after (CleanupTemporaryAccess config w) = Some (history w)) \<and>
         (history_after (CleanupTemporaryAccess config w) \<noteq> Some (history w) \<longrightarrow>
            \<not> HasActiveForPrincipal (activeSessions w) (User config) now)"
proof -
  have skip: "value_of (CleanupTemporaryAccess config w) = Some None \<and>
      history_after (CleanupTemporaryAccess config w) = Some (history w)"
    if act: "HasActiveForPrincipal (activeSessions w) (User config) now"
  proof -
    from act obtain sid s where s: "(sid, s) \<in> set (activeSessions w)" "User s = User config"
      "now < ExpiresAt s"
      by (auto simp: HasActiveForPrincipal_def)
    have "\<forall>i\<ge>reads w. \<not> After (clock w i) (ExpiresAt s)"
      using upto s(3) by (fastforce simp: After_def)
    from hasActiveSessions_found [OF s(1,2) this]
    have "fst (hasActiveSessions config (activeSessions w) w)" .
    with CleanupTemporaryAccess_cases [OF free, of config] show ?thesis by auto
  qed
  then show ?thesis by blast
qed


theorem CleanupTemporaryAccess_shared_grant_witness:
  "value_of (CleanupTemporaryAccess (alice 1500)
      (world_at 1000 quiet [(''alice-user'', alice 2000)])) = Some None \<and>
   history_after (CleanupTemporaryAccess (alice 1500)
      (world_at 1000 quiet [(''alice-user'', alice 2000)])) = Some []"
  using CleanupTemporaryAccess_shared_grant
    [of "world_at 1000 quiet [(''alice-user'', alice 2000)]" 1000 "alice 1500"]
  by (simp add: world_at_def alice_def HasActiveForPrincipal_def)

text \<open>
  The guard itself, while the clock stands at \<open>now\<close>: an active session is one of the
  same user with \<open>now \<le> expiresAt\<close>.
\<close>

lemma hasActiveSessions_guard:
  assumes "\<forall>i\<ge>reads w. clock w i = now"
  shows "fst (hasActiveSessions config reg w) \<longleftrightarrow>
         (\<exists>(sid, s) \<in> set reg. User s = User config \<and> now \<le> ExpiresAt s)"
  using assms
proof (induction reg arbitrary: w)
  case Nil
  show ?case by simp
next
  case (Cons e reg)
  obtain k session where e: "e = (k, session)" by (cases e)
  have later: "\<forall>i\<ge>reads (w\<lparr>reads := Suc (reads w)\<rparr>). clock (w\<lparr>reads := Suc (reads w)\<rparr>) i = now"
    using Cons.prems by simp
  have now: "clock w (reads w) = now" using Cons.prems by simp
  show ?case
    using Cons.IH [OF Cons.prems] Cons.IH [OF later] e now
    by (auto simp: time_Now_def After_def)
qed

text \<open>
  Claim C7. When \<open>CleanupTemporaryAccess\<close> goes on to the teardown, it deletes the
  cluster role binding first and the service account second, both with
  \<open>--ignore-not-found=true\<close>; the second deletion is run whatever the first returned, the
  messages of the failed ones are collected, and the result is the error made of them
  exactly when at least one deletion failed.
\<close>

theorem CleanupTemporaryAccess_teardown:
  fixes config :: ServiceAccountConfig and w :: world
  defines "r1 \<equiv> respond w (history w) (delete_clusterrolebinding config)"
  defines "r2 \<equiv> respond w (history w @ [(delete_clusterrolebinding config, r1)])
                   (delete_serviceaccount config)"
  defines "errs \<equiv>
      (case err r1 of
         Some e \<Rightarrow> [Sprintf ''failed to delete clusterrolebinding: %v'' [ArgErr e]]
       | None \<Rightarrow> []) @
      (case err r2 of
         Some e \<Rightarrow> [Sprintf ''failed to delete serviceaccount: %v'' [ArgErr e]]
       | None \<Rightarrow> [])"
  assumes free: "\<not> writer (activeSessionsMutex w)"
    and proceeds: "\<not> fst (hasActiveSessions config (activeSessions w) w)"
  shows "history_after (CleanupTemporaryAccess config w) =
           Some (history w @ [(delete_clusterrolebinding config, r1),
                              (delete_serviceaccount config, r2)]) \<and>
         value_of (CleanupTemporaryAccess config w) =
           Some (if err r1 = None \<and> err r2 = None then None
                 else Some (Errorf ''cleanup errors: %s'' [JoinArgs errs ''; ''])) \<and>
         argv (delete_clusterrolebinding config) =
           [''kubectl'', ''delete'', ''clusterrolebinding'', Name config @ ''-admin'',
            ''--ignore-not-found=true''] \<and>
         argv (delete_serviceaccount config) =
           [''kubectl'', ''delete'', ''serviceaccount'', ''-n'', Namespace config, Name config,
            ''--ignore-not-found=true'']"
proof -
  have e: "(errs = []) = (err r1 = None \<and> err r2 = None)"
    by (auto simp: errs_def split: option.splits)
  from CleanupTemporaryAccess_cases [OF free, of config] proceeds
  obtain w' where "CleanupTemporaryAccess config w =
      Returns (if errs = [] then None
               else Some (Errorf ''cleanup errors: %s'' [JoinArgs errs ''; ''])) w'"
    "history w' = history w @ [(delete_clusterrolebinding config, r1),
                               (delete_serviceaccount config, r2)]"
    unfolding r1_def r2_def errs_def by auto
  then show ?thesis
    by (simp add: e delete_clusterrolebinding_def delete_serviceaccount_def kubectl_def)
qed

theorem CleanupTemporaryAccess_teardown_witness:
  "value_of (CleanupTemporaryAccess (alice 1500) (world_at 1000 failing [])) =
     Some (Some (Errorf ''cleanup errors: %s''
       [JoinArgs [Sprintf ''failed to delete clusterrolebinding: %v''
                    [ArgErr (LibError ''exit status 1'')],
                  Sprintf ''failed to delete serviceaccount: %v''
                    [ArgErr (LibError ''exit status 1'')]] ''; ''])) \<and>
   commands_after (CleanupTemporaryAccess (alice 1500) (world_at 1000 failing [])) =
     Some [delete_clusterrolebinding (alice 1500), delete_serviceaccount (alice 1500)]"
  using CleanupTemporaryAccess_teardown [of "world_at 1000 failing []" "alice 1500"]
  by (cases "CleanupTemporaryAccess (alice 1500) (world_at 1000 failing [])")
     (simp_all add: world_at_def failing_def)


section \<open>Properties of the sweep\<close>

text \<open>
  The test of the tick is \<open>now.After(session.ExpiresAt)\<close>, a strict comparison. A tick
  that finds no session with \<open>expiresAt < now\<close> returns, and leaves the map and the log
  as they were.
\<close>

lemma cleanupLoop_nothing_expired:
  "\<forall>(sid, s) \<in> set reg. now \<le> ExpiresAt s \<Longrightarrow> cleanupLoop now reg w = Returns () w"
  by (induction reg) (auto simp: After_def)

lemma cleanupExpiredSessions_nothing_expired:
  assumes free: "activeSessionsMutex w = \<lparr>writer = False, readers = 0\<rparr>"
    and fresh: "\<forall>(sid, s) \<in> set (activeSessions w). clock w (reads w) \<le> ExpiresAt s"
  shows "sessions_after (cleanupExpiredSessions w) = Some (activeSessions w) \<and>
         history_after (cleanupExpiredSessions w) = Some (history w)"
proof -
  define w2 where "w2 = w\<lparr>activeSessionsMutex := \<lparr>writer = True, readers = 0\<rparr>,
                          reads := Suc (reads w)\<rparr>"
  have loop: "cleanupLoop (clock w (reads w)) (activeSessions w) w2 = Returns () w2"
    by (rule cleanupLoop_nothing_expired) (rule fresh)
  show ?thesis
    using loop
    by (simp add: cleanupExpiredSessions_def Lock_def Unlock_def time_Now_def Let_def free
        w2_def)
qed

text \<open>
  An entry with \<open>expiresAt = now\<close> is among those that stay: nothing is revoked and the
  entry is kept.
\<close>

lemma tick_keeps_session_expiring_now:
  "ExpiresAt (alice 1000) \<le> clock (world_at 1000 quiet [(''alice-user'', alice 1000)]) 0 \<and>
   sessions_after (cleanupExpiredSessions (world_at 1000 quiet [(''alice-user'', alice 1000)])) =
     Some [(''alice-user'', alice 1000)] \<and>
   commands_after (cleanupExpiredSessions (world_at 1000 quiet [(''alice-user'', alice 1000)])) =
     Some []"
  by (simp add: cleanupExpiredSessions_def Lock_def Unlock_def time_Now_def world_at_def
      alice_def After_def Let_def)

text \<open>
  With an entry that has expired the tick does not return. It holds the write lock of
  \<open>activeSessionsMutex\<close> from its first statement to its deferred \<open>Unlock\<close>, and the
  first statement of \<open>CleanupTemporaryAccess\<close>, which it calls on the expired session, is
  \<open>RLock\<close> on the same lock; a \<open>sync.RWMutex\<close> is not reentrant, so the goroutine waits
  for itself. No deletion is run and no entry is removed.
\<close>

lemma cleanupLoop_blocks:
  assumes "writer (activeSessionsMutex v)" "(sid, s) \<in> set reg" "ExpiresAt s < now"
  shows "cleanupLoop now reg v = Blocks"
  using assms(2)
proof (induction reg)
  case Nil
  then show ?case by simp
next
  case (Cons e reg)
  obtain k t where e: "e = (k, t)" by (cases e)
  have cta: "CleanupTemporaryAccess c v = Blocks" for c
    using assms(1) by (simp add: CleanupTemporaryAccess_def RLock_def Let_def)
  show ?case
  proof (cases "After now (ExpiresAt t)")
    case True
    then show ?thesis using e cta by simp
  next
    case False
    with Cons.prems assms(3) e have "(sid, s) \<in> set reg"
      by (auto simp: After_def)
    with Cons.IH False e show ?thesis by simp
  qed
qed

lemma cleanupExpiredSessions_blocks:
  assumes "(sid, s) \<in> set (activeSessions w)" "ExpiresAt s < clock w (reads w)"
  shows "cleanupExpiredSessions w = Blocks"
proof (cases "Lock w")
  case (Returns u w1)
  then have w1: "writer (activeSessionsMutex w1)" "activeSessions w1 = activeSessions w"
    "clock w1 = clock w" "reads w1 = reads w"
    by (auto simp: Lock_def Let_def split: if_splits)
  define now where "now = clock w (reads w)"
  define w2 where "w2 = w1\<lparr>reads := Suc (reads w1)\<rparr>"
  have tn: "time_Now w1 = (now, w2)" by (simp add: time_Now_def now_def w2_def w1)
  have "cleanupLoop now (activeSessions w2) w2 = Blocks"
    by (rule cleanupLoop_blocks [where sid = sid and s = s])
       (simp_all add: w2_def w1 assms now_def)
  then show ?thesis
    by (simp add: cleanupExpiredSessions_def Returns tn)
next
  case Blocks
  then show ?thesis by (simp add: cleanupExpiredSessions_def)
next
  case Fatal
  then show ?thesis by (simp add: Lock_def Let_def split: if_splits)
qed

text \<open>
  Claim C1: every tick removes each entry with \<open>expiresAt \<le> now\<close> from the registry and
  calls the revoke path \<open>CleanupTemporaryAccess\<close> for it, whatever that call returns.
  The code at a registry with one session that expired before \<open>now\<close>, registered through
  \<open>RegisterSession\<close>, on a cluster that answers every command with success: the tick
  blocks on the lock it holds itself, so it ends in no state at all, with the entry
  removed or otherwise. The same call of \<open>CleanupTemporaryAccess\<close> outside the tick
  returns no error after its two deletions.
\<close>

theorem tick_blocks_on_expired_session:
  "RegisterSession (alice 500) (world_at 1000 quiet []) =
     Returns () (world_at 1000 quiet [(''alice-user'', alice 500)]) \<and>
   ExpiresAt (alice 500) < clock (world_at 1000 quiet [(''alice-user'', alice 500)]) 0 \<and>
   cleanupExpiredSessions (world_at 1000 quiet [(''alice-user'', alice 500)]) = Blocks \<and>
   sessions_after (cleanupExpiredSessions (world_at 1000 quiet [(''alice-user'', alice 500)])) =
     None \<and>
   value_of (CleanupTemporaryAccess (alice 500)
       (world_at 1000 quiet [(''alice-user'', alice 500)])) = Some None \<and>
   commands_after (CleanupTemporaryAccess (alice 500)
       (world_at 1000 quiet [(''alice-user'', alice 500)])) =
     Some [delete_clusterrolebinding (alice 500), delete_serviceaccount (alice 500)]"
  by (simp add: RegisterSession_def cleanupExpiredSessions_def CleanupTemporaryAccess_def
      teardown_def run_def Lock_def Unlock_def RLock_def RUnlock_def time_Now_def
      world_at_def alice_def quiet_def After_def Let_def)

section \<open>What the calls leave alone\<close>

lemma frame_refl: "frame w w"
  by (simp add: frame_def)

lemma frame_trans: "frame a b \<Longrightarrow> frame b c \<Longrightarrow> frame a c"
  by (simp add: frame_def)

lemma run_frame: "run c w = (r, w') \<Longrightarrow> frame w w'"
  by (auto simp: run_def frame_def Let_def)

lemma run_frame_snd: "frame w (snd (run c w))"
  by (auto simp: run_def frame_def Let_def)

lemma time_Now_frame: "time_Now w = (t, w') \<Longrightarrow> frame w w'"
  by (auto simp: time_Now_def frame_def)

lemma verifyClusterAccess_frame: "verifyClusterAccess w = (r, w') \<Longrightarrow> frame w w'"
  by (auto simp: verifyClusterAccess_def split: prod.splits option.splits dest!: run_frame)

lemma getCurrentUser_frame: "getCurrentUser w = (r, w') \<Longrightarrow> frame w w'"
  by (auto simp: getCurrentUser_def split: prod.splits option.splits dest!: run_frame)

lemma getClusterInfo_frame: "getClusterInfo w = (r, w') \<Longrightarrow> frame w w'"
  unfolding getClusterInfo_def
  by (auto split: prod.splits option.splits if_splits dest!: run_frame simp: frame_def)

lemma waitAttempts_frame: "waitAttempts n config w = (r, w') \<Longrightarrow> frame w w'"
proof (induction n arbitrary: w)
  case 0
  then show ?case by (simp add: frame_def)
next
  case (Suc n)
  obtain r1 w1 where r: "run (get_serviceaccount config) w = (r1, w1)"
    by (cases "run (get_serviceaccount config) w")
  show ?case
  proof (cases "err r1 = None \<and> 0 < length (stdout r1)")
    case True
    with Suc.prems r run_frame [OF r] show ?thesis by auto
  next
    case False
    with Suc.prems r have "waitAttempts n config w1 = (r, w')" by (auto simp: Sleep_def)
    from Suc.IH [OF this] run_frame [OF r] show ?thesis by (rule frame_trans [rotated])
  qed
qed

lemma waitForServiceAccount_frame: "waitForServiceAccount config w = (r, w') \<Longrightarrow> frame w w'"
  by (simp add: waitForServiceAccount_def waitAttempts_frame)

lemma serviceAccountExists_frame: "serviceAccountExists config w = (r, w') \<Longrightarrow> frame w w'"
  by (auto simp: serviceAccountExists_def split: prod.splits dest!: run_frame)

lemma createResources_frame: "createResources config w = (r, w') \<Longrightarrow> frame w w'"
  by (auto simp: createResources_def split: prod.splits option.splits dest!: run_frame)

lemma prepareAccess_frame: "prepareAccess d w = (r, w') \<Longrightarrow> frame w w'"
  unfolding prepareAccess_def
  by (auto split: prod.splits option.splits outcome.splits
      dest!: verifyClusterAccess_frame getCurrentUser_frame getClusterInfo_frame time_Now_frame
      simp: frame_def)

lemma CreateTemporaryAccess_frame: "CreateTemporaryAccess d w = (r, w') \<Longrightarrow> frame w w'"
  unfolding CreateTemporaryAccess_def
  by (auto split: prod.splits option.splits outcome.splits bool.splits
      dest!: prepareAccess_frame serviceAccountExists_frame createResources_frame
        waitForServiceAccount_frame
      simp: frame_def)

lemma GetTemporaryToken_frame: "GetTemporaryToken config w = (r, c', w') \<Longrightarrow> frame w w'"
  unfolding GetTemporaryToken_def Until_def
  by (auto split: prod.splits option.splits if_splits
      dest!: waitForServiceAccount_frame time_Now_frame run_frame
      simp: frame_def Let_def)

lemma GetServiceAccountFromConfig_frame:
  "GetServiceAccountFromConfig unmarshal path w = (r, w') \<Longrightarrow> frame w w'"
  unfolding GetServiceAccountFromConfig_def
  by (auto split: prod.splits option.splits sum.splits yaml.splits list.splits if_splits
      dest!: run_frame simp: Let_def)


lemma run_snd_fields:
  "activeSessions (snd (run c w)) = activeSessions w"
  "activeSessionsMutex (snd (run c w)) = activeSessionsMutex w"
  "clock (snd (run c w)) = clock w" "rfc3339 (snd (run c w)) = rfc3339 w"
  "respond (snd (run c w)) = respond w" "reads (snd (run c w)) = reads w"
  by (simp_all add: run_def Let_def)

lemma activate_deferred_fields:
  "activeSessions (activate_deferred a b w) = activeSessions w"
  "activeSessionsMutex (activate_deferred a b w) = activeSessionsMutex w"
  "clock (activate_deferred a b w) = clock w" "rfc3339 (activate_deferred a b w) = rfc3339 w"
  "respond (activate_deferred a b w) = respond w" "reads (activate_deferred a b w) = reads w"
  by (simp_all add: activate_deferred_def run_snd_fields)

lemma ActivateCmd_frame:
  assumes "ActivateCmd ps unmarshal marshal name flag w = Returns () w'"
  shows "frame w w'"
  using assms unfolding ActivateCmd_def Let_def
  by (auto split: prod.splits if_splits outcome.splits
      dest!: run_frame CreateTemporaryAccess_frame GetTemporaryToken_frame
      simp: frame_def run_snd_fields activate_deferred_fields)

lemma io_only_frame: "frame w (io_only cs k w)"
proof -
  have "frame w (fold (\<lambda>c v. snd (run c v)) cs w) \<and>
        reads (fold (\<lambda>c v. snd (run c v)) cs w) = reads w"
  proof (induction cs arbitrary: w)
    case Nil
    show ?case by (simp add: frame_def)
  next
    case (Cons c cs)
    from Cons.IH [of "snd (run c w)"] show ?case
      by (simp add: frame_def run_snd_fields)
  qed
  then show ?thesis by (simp add: io_only_def frame_def)
qed

lemma hasActiveSessions_empty: "hasActiveSessions config [] w = (False, w)"
  by simp

lemma CleanupTemporaryAccess_empty:
  assumes "activeSessions w = []" "activeSessionsMutex w = \<lparr>writer = False, readers = 0\<rparr>"
  shows "\<exists>e w'. CleanupTemporaryAccess config w = Returns e w' \<and> frame w w'"
  using assms
  by (simp add: CleanupTemporaryAccess_def RLock_def RUnlock_def Let_def teardown_def run_def
      frame_def split: option.splits)

lemma DeactivateCmd_frame:
  assumes "DeactivateCmd ps unmarshal w = Returns () w'"
    and "activeSessions w = []" "activeSessionsMutex w = \<lparr>writer = False, readers = 0\<rparr>"
  shows "frame w w'"
proof -
  obtain r1 w1 where r1: "run (os_call ''os.Getenv'' [''KUBECONFIG''] []) w = (r1, w1)"
    by (cases "run (os_call ''os.Getenv'' [''KUBECONFIG''] []) w")
  define cur where "cur = (if stdout r1 = [] then KubeConfigFile ps else stdout r1)"
  obtain sa w2 where sa: "GetServiceAccountFromConfig unmarshal cur w1 = (sa, w2)"
    by (cases "GetServiceAccountFromConfig unmarshal cur w1")
  obtain r3 w3 where r3: "run (os_call ''os.WriteFile'' [KubeConfigFile ps] []) w2 = (r3, w3)"
    by (cases "run (os_call ''os.WriteFile'' [KubeConfigFile ps] []) w2")
  have f3: "frame w w3"
    using run_frame [OF r1] GetServiceAccountFromConfig_frame [OF sa] run_frame [OF r3]
    by (simp add: frame_def)
  then have e3: "activeSessions w3 = []" "activeSessionsMutex w3 = \<lparr>writer = False, readers = 0\<rparr>"
    using assms(2,3) by (simp_all add: frame_def)
  show ?thesis
  proof (cases sa)
    case (Ok saConfig)
    from CleanupTemporaryAccess_empty [OF e3, of saConfig]
    obtain e w4 where c: "CleanupTemporaryAccess saConfig w3 = Returns e w4" "frame w3 w4"
      by blast
    with assms(1) r1 sa r3 Ok f3 show ?thesis
      by (auto simp: DeactivateCmd_def Let_def cur_def frame_def run_snd_fields
          split: if_splits)
  next
    case (Err e)
    with assms(1) r1 sa r3 f3 show ?thesis
      by (auto simp: DeactivateCmd_def Let_def cur_def frame_def run_snd_fields
          split: if_splits)
  next
    case (Panic m)
    with assms(1) r1 sa r3 show ?thesis
      by (auto simp: DeactivateCmd_def Let_def cur_def split: if_splits)
  qed
qed

lemma cleanupExpiredSessions_empty:
  assumes "activeSessions w = []" "activeSessionsMutex w = \<lparr>writer = False, readers = 0\<rparr>"
  shows "\<exists>w'. cleanupExpiredSessions w = Returns () w' \<and> frame w w' \<and> history w' = history w"
  using assms
  by (simp add: cleanupExpiredSessions_def Lock_def Unlock_def time_Now_def Let_def frame_def)

text \<open>
  Claim C3. In every state that a process reaches the map \<open>activeSessions\<close> is empty, no
  command calling \<open>RegisterSession\<close>: the check of \<open>CleanupTemporaryAccess\<close> for an
  active session finds none, and a tick ranges over an empty map and revokes nothing.
\<close>

theorem registry_stays_empty:
  assumes "reachable w"
  shows "activeSessions w = [] \<and>
         activeSessionsMutex w = \<lparr>writer = False, readers = 0\<rparr> \<and>
         (\<forall>config. \<not> fst (hasActiveSessions config (activeSessions w) w)) \<and>
         sessions_after (cleanupExpiredSessions w) = Some [] \<and>
         history_after (cleanupExpiredSessions w) = Some (history w)"
proof -
  have inv: "activeSessions w = [] \<and> activeSessionsMutex w = \<lparr>writer = False, readers = 0\<rparr>"
    using assms
  proof (induction rule: reachable.induct)
    case (start w)
    then show ?case by simp
  next
    case (activate w ps unmarshal marshal kubeconfigName flag w')
    from ActivateCmd_frame [OF activate.hyps(2)] activate.IH show ?case
      by (simp add: frame_def)
  next
    case (deactivate w ps unmarshal w')
    from DeactivateCmd_frame [OF deactivate.hyps(2)] deactivate.IH show ?case
      by (simp add: frame_def)
  next
    case (tick w w')
    from cleanupExpiredSessions_empty [of w] tick.IH tick.hyps(2) show ?case
      by (auto simp: frame_def)
  next
    case (other w cs k)
    from io_only_frame [of w cs k] other.IH show ?case
      by (simp add: frame_def)
  qed
  from cleanupExpiredSessions_empty [of w] inv
  obtain w' where "cleanupExpiredSessions w = Returns () w'" "frame w w'" "history w' = history w"
    by blast
  with inv show ?thesis by (simp add: frame_def)
qed

theorem registry_stays_empty_witness:
  "reachable (io_only [kubectl [''cluster-info'']] 0 (world_at 1000 quiet [])) \<and>
   activeSessions (io_only [kubectl [''cluster-info'']] 0 (world_at 1000 quiet [])) = [] \<and>
   history_after (cleanupExpiredSessions
       (io_only [kubectl [''cluster-info'']] 0 (world_at 1000 quiet []))) =
     Some [(kubectl [''cluster-info''], quiet [] (kubectl [''cluster-info'']))]"
proof -
  have r: "reachable (io_only [kubectl [''cluster-info'']] 0 (world_at 1000 quiet []))"
    by (rule reachable.other, rule reachable.start) (simp_all add: world_at_def)
  from registry_stays_empty [OF r] r show ?thesis
    by (simp add: io_only_def run_def world_at_def quiet_def Let_def)
qed

section \<open>Properties of the expiry verifier\<close>

lemma store_members_eq:
  "store_members ms (x, sv) =
     (stored x (exp_members ms),
      if sv \<noteq> None then sv
      else if list_all storable (exp_members ms) then None
      else Some (LibError ''json.UnmarshalTypeError''))"
proof (induction ms arbitrary: x sv)
  case Nil
  show ?case by (simp add: stored_def exp_members_def)
next
  case (Cons m ms)
  obtain k v where m: "m = (k, v)" by (cases m)
  show ?case
  proof (cases "names_exp k")
    case False
    with Cons.IH [of x sv] m show ?thesis by (simp add: exp_members_def)
  next
    case True
    then have em: "exp_members ((k, u) # ms) = u # exp_members ms" for u
      by (simp add: exp_members_def)
    show ?thesis
      using True m
      by (cases v; cases sv)
         (auto simp: em Cons.IH stored_def storable_def split: option.splits)
  qed
qed

lemma Unmarshal_claims_Inr:
  "Unmarshal_claims payload = Inr exp \<longleftrightarrow>
     (json_parse payload = Some JNull \<and> exp = 0) \<or>
     (\<exists>ms. json_parse payload = Some (JObject ms) \<and> list_all storable (exp_members ms) \<and>
           exp = stored 0 (exp_members ms))"
  by (auto simp: Unmarshal_claims_def store_members_eq split: option.splits json.splits)

lemma within_a_minute: "Minute < Abs (Sub a b) \<longleftrightarrow> 60 * Second < \<bar>a - b\<bar>"
  by (auto simp: Abs_def Sub_def minDuration_def maxDuration_def Minute_def Second_def)

lemma Unix_in_range:
  assumes "- (2 ^ 63) - unixToInternal \<le> sec" "sec < 2 ^ 63 - unixToInternal"
  shows "Unix sec = sec * Second"
proof -
  have "(sec + unixToInternal + 2 ^ 63) mod 2 ^ 64 = sec + unixToInternal + 2 ^ 63"
    using assms by (intro mod_pos_pos_trivial) (simp_all add: unixToInternal_def)
  then show ?thesis by (simp add: Unix_def wrap64_def)
qed


text \<open>
  Claim C6, as stated, for a payload that is a JSON object without \<open>exp\<close>: the verifier
  is to return an error. The middle segment \<open>e30\<close> is \<open>{}\<close>, and for an expected expiry
  30 seconds after the epoch the token is accepted.
\<close>

theorem verifyTokenExpiry_accepts_payload_without_exp:
  \<open>RawURLEncoding_DecodeString (Split ''h.e30.s'' (CHR ''.'') ! 1) = Some ''{}'' \<and>
   json_parse ''{}'' = Some (JObject []) \<and>
   verifyTokenExpiry ''h.e30.s'' (30 * Second) = None\<close>
  by code_simp

text \<open>
  Claim C6, amended. The verifier returns an error when the token does not split on
  \<open>.\<close> into exactly three segments, when the middle segment is not unpadded base64url,
  and when the payload is not JSON, is a JSON value other than an object or \<open>null\<close>, or
  has a member named \<open>exp\<close> (in any case of the letters) that is neither \<open>null\<close> nor an
  integer literal of the range of \<open>int64\<close>. Otherwise \<open>exp\<close> is the last integer so
  named, and 0 when there is none, which is no error; the verifier accepts exactly when
  \<open>time.Unix(exp, 0)\<close> and the expected expiry differ by at most 60 seconds, and rejects
  with an error that holds both instants when they differ by more.
\<close>

theorem verifyTokenExpiry_decides:
  "(verifyTokenExpiry token expectedExpiry = None \<longleftrightarrow>
      length (Split token (CHR ''.'')) = 3 \<and>
      (\<exists>payload exp.
         RawURLEncoding_DecodeString (Split token (CHR ''.'') ! 1) = Some payload \<and>
         (json_parse payload = Some JNull \<and> exp = 0 \<or>
          (\<exists>ms. json_parse payload = Some (JObject ms) \<and>
                list_all storable (exp_members ms) \<and> exp = stored 0 (exp_members ms))) \<and>
         \<bar>Unix exp - expectedExpiry\<bar> \<le> 60 * Second)) \<and>
   (length (Split token (CHR ''.'')) \<noteq> 3 \<longrightarrow>
      verifyTokenExpiry token expectedExpiry = Some (Errorf ''invalid token format'' [])) \<and>
   (\<forall>payload exp. length (Split token (CHR ''.'')) = 3 \<longrightarrow>
      RawURLEncoding_DecodeString (Split token (CHR ''.'') ! 1) = Some payload \<longrightarrow>
      Unmarshal_claims payload = Inr exp \<longrightarrow> 60 * Second < \<bar>Unix exp - expectedExpiry\<bar> \<longrightarrow>
      verifyTokenExpiry token expectedExpiry =
        Some (Errorf ''token expiry mismatch: expected %s, got %s''
                [ArgTime expectedExpiry, ArgTime (Unix exp)])) \<and>
   (\<forall>sec. - (2 ^ 63) \<le> sec \<longrightarrow> sec < 2 ^ 63 - unixToInternal \<longrightarrow> Unix sec = sec * Second)"
proof -
  have 1: "verifyTokenExpiry token expectedExpiry = None \<longleftrightarrow>
      length (Split token (CHR ''.'')) = 3 \<and>
      (\<exists>payload exp.
         RawURLEncoding_DecodeString (Split token (CHR ''.'') ! 1) = Some payload \<and>
         Unmarshal_claims payload = Inr exp \<and> \<bar>Unix exp - expectedExpiry\<bar> \<le> 60 * Second)"
    by (auto simp: verifyTokenExpiry_def Let_def within_a_minute
        split: option.splits sum.splits)
  have 2: "length (Split token (CHR ''.'')) \<noteq> 3 \<longrightarrow>
      verifyTokenExpiry token expectedExpiry = Some (Errorf ''invalid token format'' [])"
    by (simp add: verifyTokenExpiry_def Let_def)
  have 3: "\<forall>payload exp. length (Split token (CHR ''.'')) = 3 \<longrightarrow>
      RawURLEncoding_DecodeString (Split token (CHR ''.'') ! 1) = Some payload \<longrightarrow>
      Unmarshal_claims payload = Inr exp \<longrightarrow> 60 * Second < \<bar>Unix exp - expectedExpiry\<bar> \<longrightarrow>
      verifyTokenExpiry token expectedExpiry =
        Some (Errorf ''token expiry mismatch: expected %s, got %s''
                [ArgTime expectedExpiry, ArgTime (Unix exp)])"
    by (auto simp: verifyTokenExpiry_def Let_def within_a_minute)
  have 4: "\<forall>sec. - (2 ^ 63) \<le> sec \<longrightarrow> sec < 2 ^ 63 - unixToInternal \<longrightarrow> Unix sec = sec * Second"
    using Unix_in_range by (simp add: unixToInternal_def)
  have 5: "verifyTokenExpiry token expectedExpiry = None \<longleftrightarrow>
      length (Split token (CHR ''.'')) = 3 \<and>
      (\<exists>payload exp.
         RawURLEncoding_DecodeString (Split token (CHR ''.'') ! 1) = Some payload \<and>
         (json_parse payload = Some JNull \<and> exp = 0 \<or>
          (\<exists>ms. json_parse payload = Some (JObject ms) \<and>
                list_all storable (exp_members ms) \<and> exp = stored 0 (exp_members ms))) \<and>
         \<bar>Unix exp - expectedExpiry\<bar> \<le> 60 * Second)"
    unfolding 1 Unmarshal_claims_Inr ..
  show ?thesis
    by (intro conjI 2 3 4 5)
qed

theorem verifyTokenExpiry_decides_witness:
  "verifyTokenExpiry ''h.eyJleHAiOjE3MDAwMDAwMDB9.s'' (1700000060 * Second) = None \<and>
   length (Split ''h.eyJleHAiOjE3MDAwMDAwMDB9.s'' (CHR ''.'')) = 3 \<and>
   verifyTokenExpiry ''h.eyJleHAiOjE3MDAwMDAwMDB9.s'' (1700000061 * Second) =
     Some (Errorf ''token expiry mismatch: expected %s, got %s''
             [ArgTime (1700000061 * Second), ArgTime (1700000000 * Second)])"
proof -
  have a: "verifyTokenExpiry ''h.eyJleHAiOjE3MDAwMDAwMDB9.s'' (1700000060 * Second) = None"
    by code_simp
  have b: "length (Split ''h.eyJleHAiOjE3MDAwMDAwMDB9.s'' (CHR ''.'')) = 3"
    by code_simp
  have c: "Unmarshal_claims (the (RawURLEncoding_DecodeString
      (Split ''h.eyJleHAiOjE3MDAwMDAwMDB9.s'' (CHR ''.'') ! 1))) = Inr 1700000000"
    by code_simp
  have d: "RawURLEncoding_DecodeString (Split ''h.eyJleHAiOjE3MDAwMDAwMDB9.s'' (CHR ''.'') ! 1) =
      Some (the (RawURLEncoding_DecodeString
        (Split ''h.eyJleHAiOjE3MDAwMDAwMDB9.s'' (CHR ''.'') ! 1)))"
    by code_simp
  have e: "60 * Second < \<bar>Unix 1700000000 - 1700000061 * Second\<bar>"
    by code_simp
  have f: "Unix 1700000000 = 1700000000 * Second"
    by code_simp
  from verifyTokenExpiry_decides
    [of "''h.eyJleHAiOjE3MDAwMDAwMDB9.s''" "1700000061 * Second"] b c d e
  have "verifyTokenExpiry ''h.eyJleHAiOjE3MDAwMDAwMDB9.s'' (1700000061 * Second) =
     Some (Errorf ''token expiry mismatch: expected %s, got %s''
             [ArgTime (1700000061 * Second), ArgTime (Unix 1700000000)])"
    by blast
  with a b f show ?thesis by simp
qed

section \<open>Properties of the configuration document\<close>

lemma same_branch_Nil: "same_branch p []" "same_branch [] p"
  by (simp_all add: same_branch_def)

lemma same_branch_Cons: "same_branch (s # p) (t # q) \<longleftrightarrow> s = t \<and> same_branch p q"
  by (auto simp: same_branch_def)

lemma frame_YMap:
  assumes inner: "\<And>q. \<not> same_branch q rest \<Longrightarrow>
      yaml_get q v' = (case map_of m k of None \<Rightarrow> None | Some v \<Rightarrow> yaml_get q v)"
    and p: "\<not> same_branch p (Key k # rest)"
  shows "yaml_get p (YMap (AList.update k v' m)) = yaml_get p (YMap m)"
proof (cases p)
  case Nil
  with p show ?thesis by (simp add: same_branch_Nil)
next
  case (Cons s q)
  show ?thesis
  proof (cases "s = Key k")
    case True
    with p Cons have "\<not> same_branch q rest" by (simp add: same_branch_Cons)
    from inner [OF this] True Cons show ?thesis by (simp add: update_conv')
  next
    case False
    with Cons show ?thesis by (cases s) (simp_all add: update_conv')
  qed
qed

lemma frame_YSeq_head:
  assumes inner: "\<And>q. \<not> same_branch q rest \<Longrightarrow> yaml_get q x' = yaml_get q x"
    and p: "\<not> same_branch p (Index 0 # rest)"
  shows "yaml_get p (YSeq (x' # xs)) = yaml_get p (YSeq (x # xs))"
proof (cases p)
  case Nil
  with p show ?thesis by (simp add: same_branch_Nil)
next
  case (Cons s q)
  show ?thesis
  proof (cases s)
    case (Index i)
    show ?thesis
    proof (cases i)
      case 0
      with p Cons Index have "\<not> same_branch q rest" by (simp add: same_branch_Cons)
      from inner [OF this] Cons Index 0 show ?thesis by simp
    next
      case (Suc j)
      with Cons Index show ?thesis by simp
    qed
  qed (simp_all add: Cons)
qed

text \<open>
  Claim C10. For a document that parses and in which \<open>users[0].user\<close> is a mapping,
  and for every token, \<open>ModifyKubeconfigWithToken\<close> hands to the printer a document in
  which \<open>users[0].user.token\<close> is the new token and which is the document read at every
  place that is not on the branch of the token: the clusters, the contexts, the other users
  and the other fields of the first user are unchanged.
\<close>

theorem ModifyKubeconfigWithToken_frame:
  assumes parsed: "unmarshal originalConfig = Inr kubeconfig"
    and shape: "yaml_get [Key ''users'', Index 0, Key ''user''] (YMap kubeconfig) =
      Some (YMap userData)"
  shows "\<exists>kubeconfig'.
           ModifyKubeconfigWithToken unmarshal marshal originalConfig token =
             (case marshal kubeconfig' of Inl e \<Rightarrow> Err e | Inr out \<Rightarrow> Ok out) \<and>
           yaml_get token_path (YMap kubeconfig') = Some (YStr token) \<and>
           (\<forall>p. \<not> same_branch p token_path \<longrightarrow>
                yaml_get p (YMap kubeconfig') = yaml_get p (YMap kubeconfig))"
proof -
  from shape obtain users where users: "map_of kubeconfig ''users'' = Some users"
    by (auto split: option.splits)
  from shape users obtain u us where seq: "users = YSeq (u # us)"
    by (cases users; cases "case users of YSeq xs \<Rightarrow> xs | _ \<Rightarrow> []") (auto split: if_splits)
  from shape users seq obtain user where u: "u = YMap user"
    by (cases u) (auto split: option.splits)
  from shape users seq u have ud: "map_of user ''user'' = Some (YMap userData)"
    by (auto split: option.splits)
  define userData' where "userData' = AList.update ''token'' (YStr token) userData"
  define user' where "user' = AList.update ''user'' (YMap userData') user"
  define kubeconfig' where
    "kubeconfig' = AList.update ''users'' (YSeq (YMap user' # us)) kubeconfig"
  have run: "ModifyKubeconfigWithToken unmarshal marshal originalConfig token =
      (case marshal kubeconfig' of Inl e \<Rightarrow> Err e | Inr out \<Rightarrow> Ok out)"
    by (simp add: ModifyKubeconfigWithToken_def parsed users seq u ud kubeconfig'_def
        user'_def userData'_def)
  have tok: "yaml_get token_path (YMap kubeconfig') = Some (YStr token)"
    by (simp add: token_path_def kubeconfig'_def user'_def userData'_def update_conv')
  have l4: "yaml_get q (YMap userData') = yaml_get q (YMap userData)"
    if "\<not> same_branch q [Key ''token'']" for q
    unfolding userData'_def
    by (rule frame_YMap [OF _ that]) (simp add: same_branch_Nil)
  have l3: "yaml_get q (YMap user') = yaml_get q (YMap user)"
    if "\<not> same_branch q [Key ''user'', Key ''token'']" for q
    unfolding user'_def
    by (rule frame_YMap [OF _ that]) (simp add: ud l4)
  have l2: "yaml_get q (YSeq (YMap user' # us)) = yaml_get q (YSeq (YMap user # us))"
    if "\<not> same_branch q [Index 0, Key ''user'', Key ''token'']" for q
    by (rule frame_YSeq_head [OF _ that]) (simp add: l3)
  have l1: "yaml_get p (YMap kubeconfig') = yaml_get p (YMap kubeconfig)"
    if "\<not> same_branch p token_path" for p
    unfolding kubeconfig'_def
    by (rule frame_YMap [OF _ that [unfolded token_path_def]]) (simp add: users seq u l2)
  from run tok l1 show ?thesis by blast
qed


theorem ModifyKubeconfigWithToken_frame_witness:
  "yaml_get [Key ''users'', Index 0, Key ''user''] (YMap sample_kubeconfig) =
     Some (YMap [(''client-key-data'', YStr ''k''), (''token'', YStr ''old'')]) \<and>
   ModifyKubeconfigWithToken (parse_as sample_kubeconfig) print_token [] ''new'' = Ok ''new''"
proof -
  have shape: "yaml_get [Key ''users'', Index 0, Key ''user''] (YMap sample_kubeconfig) =
     Some (YMap [(''client-key-data'', YStr ''k''), (''token'', YStr ''old'')])"
    by (simp add: sample_kubeconfig_def)
  from ModifyKubeconfigWithToken_frame [where unmarshal = "parse_as sample_kubeconfig"
      and originalConfig = "[]" and kubeconfig = sample_kubeconfig and token = "''new''"
      and marshal = print_token, OF _ shape]
  obtain k' where "ModifyKubeconfigWithToken (parse_as sample_kubeconfig) print_token [] ''new'' =
             (case print_token k' of Inl e \<Rightarrow> Err e | Inr out \<Rightarrow> Ok out)"
    "yaml_get token_path (YMap k') = Some (YStr ''new'')"
    by (auto simp: parse_as_def)
  then have "ModifyKubeconfigWithToken (parse_as sample_kubeconfig) print_token [] ''new'' =
      Ok ''new''"
    by (simp add: print_token_def)
  with shape show ?thesis by simp
qed

text \<open>
  Where the two operations check the document and where they do not. A document that
  does not parse, or whose \<open>users\<close> section (for \<open>ModifyKubeconfigWithToken\<close>) or
  \<open>contexts\<close> section (for \<open>GetServiceAccountFromConfig\<close>) is missing, not a sequence
  or empty, gives an error. Below the section the type assertions have one result: a
  first user that is not a \<open>map[string]interface{}\<close>, or whose \<open>user\<close> is missing or
  not one, panics, and so does a first context that is not a
  \<open>map[interface{}]interface{}\<close> with a string under \<open>name\<close>. The error of the name
  format is reached only by a first context with a key that is not a string.
\<close>

lemma wrong_entry_type_panics:
  "ModifyKubeconfigWithToken (parse_as [(''users'', YSeq [YStr ''admin''])]) print_token
       ''users: [admin]'' ''new'' =
     Panic ''interface conversion: interface {} is not map[string]interface {}'' \<and>
   fst (GetServiceAccountFromConfig (parse_as [(''contexts'', YSeq [YStr ''prod''])])
       ''config'' (world_at 1000 quiet [])) =
     Panic ''interface conversion: interface {} is not map[interface {}]interface {}''"
  by (simp add: ModifyKubeconfigWithToken_def GetServiceAccountFromConfig_def parse_as_def
      run_def world_at_def quiet_def Let_def)

lemma malformed_document_outcomes:
  "(unmarshal originalConfig = Inl e \<longrightarrow>
      ModifyKubeconfigWithToken unmarshal marshal originalConfig token =
        Err (Errorf ''error parsing kubeconfig: %v'' [ArgErr e])) \<and>
   (unmarshal originalConfig = Inr kubeconfig \<longrightarrow>
      (\<forall>u us. map_of kubeconfig ''users'' \<noteq> Some (YSeq (u # us))) \<longrightarrow>
      ModifyKubeconfigWithToken unmarshal marshal originalConfig token =
        Err (Errorf ''no users found in kubeconfig'' [])) \<and>
   (unmarshal originalConfig = Inr kubeconfig \<longrightarrow>
      map_of kubeconfig ''users'' = Some (YSeq (u # us)) \<longrightarrow>
      (\<forall>user userData. u = YMap user \<longrightarrow> map_of user ''user'' \<noteq> Some (YMap userData)) \<longrightarrow>
      (\<exists>m. ModifyKubeconfigWithToken unmarshal marshal originalConfig token = Panic m)) \<and>
   (unmarshal (stdout (respond w (history w) (os_call ''os.ReadFile'' [configPath] []))) =
        Inr kubeconfig \<longrightarrow>
      err (respond w (history w) (os_call ''os.ReadFile'' [configPath] [])) = None \<longrightarrow>
      (\<forall>c cs. map_of kubeconfig ''contexts'' \<noteq> Some (YSeq (c # cs))) \<longrightarrow>
      fst (GetServiceAccountFromConfig unmarshal configPath w) =
        Err (Errorf ''no contexts found'' [])) \<and>
   (unmarshal (stdout (respond w (history w) (os_call ''os.ReadFile'' [configPath] []))) =
        Inr kubeconfig \<longrightarrow>
      err (respond w (history w) (os_call ''os.ReadFile'' [configPath] [])) = None \<longrightarrow>
      map_of kubeconfig ''contexts'' = Some (YSeq (c # cs)) \<longrightarrow>
      (\<forall>context contextName. c = YGenMap context \<longrightarrow>
         map_of context (YStr ''name'') \<noteq> Some (YStr contextName)) \<longrightarrow>
      (\<exists>m. fst (GetServiceAccountFromConfig unmarshal configPath w) = Panic m)) \<and>
   (unmarshal (stdout (respond w (history w) (os_call ''os.ReadFile'' [configPath] []))) =
        Inr kubeconfig \<longrightarrow>
      err (respond w (history w) (os_call ''os.ReadFile'' [configPath] [])) = None \<longrightarrow>
      map_of kubeconfig ''contexts'' = Some (YSeq (YGenMap context # cs)) \<longrightarrow>
      map_of context (YStr ''name'') = Some (YStr contextName) \<longrightarrow>
      length (Split contextName (CHR ''@'')) \<noteq> 2 \<longrightarrow>
      fst (GetServiceAccountFromConfig unmarshal configPath w) =
        Err (Errorf ''invalid context name format'' []))"
proof -
  have a: "(\<forall>u us. x \<noteq> Some (YSeq (u # us))) \<Longrightarrow>
      (case x of Some (YSeq (u # us)) \<Rightarrow> f u us | _ \<Rightarrow> g) = g" for x :: "yaml option" and f :: "yaml \<Rightarrow> yaml list \<Rightarrow> 'b" and g :: "'b"
    by (auto split: option.splits yaml.splits list.splits)
  show ?thesis
    by (auto simp: ModifyKubeconfigWithToken_def GetServiceAccountFromConfig_def run_def Let_def a
        split: option.splits yaml.splits list.splits)
qed

text \<open>
  The decoder gives a mapping whose keys are all strings as a \<open>map[string]interface{}\<close>,
  and the contexts of a kubeconfig are such mappings. Whenever the file is read, the
  document parses and its first context is one of them, \<open>GetServiceAccountFromConfig\<close>
  panics at \<open>contexts[0].(map[interface{}]interface{})\<close>, whatever the mapping holds.
\<close>

lemma GetServiceAccountFromConfig_string_keyed_context:
  assumes "err (respond w (history w) (os_call ''os.ReadFile'' [configPath] [])) = None"
    and "unmarshal (stdout (respond w (history w) (os_call ''os.ReadFile'' [configPath] []))) =
           Inr kubeconfig"
    and "map_of kubeconfig ''contexts'' = Some (YSeq (YMap context # cs))"
  shows "fst (GetServiceAccountFromConfig unmarshal configPath w) =
           Panic ''interface conversion: interface {} is not map[interface {}]interface {}''"
  using assms by (simp add: GetServiceAccountFromConfig_def run_def Let_def)

text \<open>
  Claim C9: for a document whose shape is not the expected one the two operations return
  an error that names the part, and never panic. The code at the document
  \<open>contexts: [{name: alice}]\<close>, whose context name has no \<open>@\<close>: the error of the name
  format is not reached, \<open>GetServiceAccountFromConfig\<close> panics at the type assertion on
  the first context. It panics in the same way on the well-formed sample document, which
  \<open>ModifyKubeconfigWithToken\<close>, asserting \<open>map[string]interface{}\<close> on its first user,
  reads and rewrites.
\<close>

theorem GetServiceAccountFromConfig_panics_on_context:
  "length (Split ''alice'' (CHR ''@'')) = 1 \<and>
   fst (GetServiceAccountFromConfig
          (parse_as [(''contexts'', YSeq [YMap [(''name'', YStr ''alice'')]])])
          ''config'' (world_at 1000 quiet [])) =
     Panic ''interface conversion: interface {} is not map[interface {}]interface {}'' \<and>
   yaml_get [Key ''contexts'', Index 0, Key ''name''] (YMap sample_kubeconfig) =
     Some (YStr ''alice-user@prod'') \<and>
   fst (GetServiceAccountFromConfig (parse_as sample_kubeconfig) ''config''
          (world_at 1000 quiet [])) =
     Panic ''interface conversion: interface {} is not map[interface {}]interface {}'' \<and>
   ModifyKubeconfigWithToken (parse_as sample_kubeconfig) print_token [] ''new'' = Ok ''new''"
proof -
  have 1: "length (Split ''alice'' (CHR ''@'')) = 1"
    by code_simp
  have 2: "fst (GetServiceAccountFromConfig
          (parse_as [(''contexts'', YSeq [YMap [(''name'', YStr ''alice'')]])])
          ''config'' (world_at 1000 quiet [])) =
     Panic ''interface conversion: interface {} is not map[interface {}]interface {}''"
    by (simp add: GetServiceAccountFromConfig_def parse_as_def run_def world_at_def quiet_def
        Let_def)
  have 3: "yaml_get [Key ''contexts'', Index 0, Key ''name''] (YMap sample_kubeconfig) =
     Some (YStr ''alice-user@prod'')"
    by (simp add: sample_kubeconfig_def)
  have 4: "fst (GetServiceAccountFromConfig (parse_as sample_kubeconfig) ''config''
          (world_at 1000 quiet [])) =
     Panic ''interface conversion: interface {} is not map[interface {}]interface {}''"
    by (simp add: GetServiceAccountFromConfig_def parse_as_def run_def world_at_def quiet_def
        Let_def sample_kubeconfig_def)
  have 5: "ModifyKubeconfigWithToken (parse_as sample_kubeconfig) print_token [] ''new'' =
     Ok ''new''"
    by (simp add: ModifyKubeconfigWithToken_def parse_as_def sample_kubeconfig_def
        print_token_def token_path_def update_conv')
  from 1 2 3 4 5 show ?thesis by (intro conjI)
qed

section \<open>Properties of the creation of the service account\<close>

lemma applies_append: "applies (h @ k) = applies h + applies k"
  by (simp add: applies_def)

lemma applies_run:
  "applies (history (snd (run c w))) = applies (history w) + (if is_apply c then 1 else 0)"
  by (simp add: run_def Let_def applies_def)

lemma run_history: "run c w = (r, w') \<Longrightarrow>
    history w' = history w @ [(c, r)] \<and> r = respond w (history w) c"
  by (auto simp: run_def Let_def)

lemma not_apply:
  "\<not> is_apply (kubectl (''auth'' # xs))" "\<not> is_apply \<lparr>argv = [''whoami''], stdin = i\<rparr>"
  "\<not> is_apply (kubectl [''cluster-info''])" "\<not> is_apply (kubectl (''config'' # xs))"
  "\<not> is_apply (kubectl (''get'' # xs))"
  by (simp_all add: is_apply_def kubectl_def)

lemma time_Now_history: "time_Now w = (t, w') \<Longrightarrow> history w' = history w"
  by (auto simp: time_Now_def)

lemma run_applies: "run c w = (r, w') \<Longrightarrow>
    applies (history w') = applies (history w) + (if is_apply c then 1 else 0)"
  by (auto simp: run_def Let_def applies_def)

lemma verifyClusterAccess_applies:
  "verifyClusterAccess w = (r, w') \<Longrightarrow> applies (history w') = applies (history w)"
  by (auto simp: verifyClusterAccess_def not_apply split: prod.splits option.splits
      dest!: run_applies)

lemma getCurrentUser_applies:
  "getCurrentUser w = (r, w') \<Longrightarrow> applies (history w') = applies (history w)"
  by (auto simp: getCurrentUser_def not_apply split: prod.splits option.splits
      dest!: run_applies)

lemma getClusterInfo_applies:
  "getClusterInfo w = (r, w') \<Longrightarrow> applies (history w') = applies (history w)"
  unfolding getClusterInfo_def
  by (auto simp: not_apply split: prod.splits option.splits if_splits dest!: run_applies)

lemma prepareAccess_applies':
  "prepareAccess d w = (r, w') \<Longrightarrow> applies (history w') = applies (history w)"
  unfolding prepareAccess_def
  by (auto split: prod.splits option.splits outcome.splits
      dest!: verifyClusterAccess_applies getCurrentUser_applies getClusterInfo_applies
        time_Now_history)

lemma prepareAccess_applies:
  "applies (history (snd (prepareAccess d w))) = applies (history w)"
  by (cases "prepareAccess d w") (simp add: prepareAccess_applies')

lemma waitAttempts_applies:
  "applies (history (snd (waitAttempts n config w))) = applies (history w)"
proof (induction n arbitrary: w)
  case 0
  show ?case by simp
next
  case (Suc n)
  obtain r w1 where r: "run (get_serviceaccount config) w = (r, w1)"
    by (cases "run (get_serviceaccount config) w")
  then have a: "applies (history w1) = applies (history w)"
    using applies_run [of "get_serviceaccount config" w]
    by (simp add: get_serviceaccount_def not_apply)
  show ?case using r a Suc.IH [of w1] by (simp add: Sleep_def)
qed

lemma serviceAccountExists_history:
  "history (snd (serviceAccountExists config w)) =
     history w @ [(exists_serviceaccount config,
                   respond w (history w) (exists_serviceaccount config))]"
  by (simp add: serviceAccountExists_def run_def Let_def split: prod.splits)

lemma serviceAccountExists_applies:
  "applies (history (snd (serviceAccountExists config w))) = applies (history w)"
  by (simp add: serviceAccountExists_history applies_append)
     (simp add: applies_def exists_serviceaccount_def not_apply)

lemma createResources_applies:
  "applies (history (snd (createResources config w))) = Suc (applies (history w))"
  using applies_run [of "apply_manifest config" w]
  by (auto simp: createResources_def apply_manifest_def is_apply_def
      split: prod.splits option.splits)

lemma CreateTemporaryAccess_found:
  assumes "fst (prepareAccess d w) = Ok config"
    and "fst (serviceAccountExists config (snd (prepareAccess d w)))"
  shows "CreateTemporaryAccess d w =
           (Ok config, snd (serviceAccountExists config (snd (prepareAccess d w))))"
  using assms
  by (cases "prepareAccess d w";
      cases "serviceAccountExists config (snd (prepareAccess d w))")
     (simp add: CreateTemporaryAccess_def)

lemma CreateTemporaryAccess_absent:
  assumes "fst (prepareAccess d w) = Ok config"
    and "\<not> fst (serviceAccountExists config (snd (prepareAccess d w)))"
  shows "applies (history (snd (CreateTemporaryAccess d w))) = Suc (applies (history w))"
proof -
  obtain w5 where p: "prepareAccess d w = (Ok config, w5)"
    using assms(1) by (cases "prepareAccess d w") simp
  obtain w6 where e: "serviceAccountExists config w5 = (False, w6)"
    using assms(2) p by (cases "serviceAccountExists config w5") simp
  obtain r7 w7 where c: "createResources config w6 = (r7, w7)"
    by (cases "createResources config w6")
  have a7: "applies (history w7) = Suc (applies (history w))"
    using prepareAccess_applies [of d w] serviceAccountExists_applies [of config w5]
      createResources_applies [of config w6] p e c by simp
  show ?thesis
  proof (cases r7)
    case (Some er)
    with p e c a7 show ?thesis by (simp add: CreateTemporaryAccess_def)
  next
    case None
    obtain r8 w8 where wt: "waitForServiceAccount config w7 = (r8, w8)"
      by (cases "waitForServiceAccount config w7")
    then have "applies (history w8) = applies (history w7)"
      using waitAttempts_applies [of 10 config w7] by (simp add: waitForServiceAccount_def)
    with p e c a7 None wt show ?thesis
      by (cases r8) (simp_all add: CreateTemporaryAccess_def)
  qed
qed

text \<open>
  Claim C2, as stated, for a service account that is there: the manifest is skipped and
  the polling is still done. On the test cluster with the account present the call returns
  right after the check: the log ends with it and holds no polling command.
\<close>

theorem CreateTemporaryAccess_found_skips_polling:
  "fst (serviceAccountExists (granted Hour)
         (snd (prepareAccess Hour (world_at instant (fake_cluster True) [])))) \<and>
   fst (CreateTemporaryAccess Hour (world_at instant (fake_cluster True) [])) =
     Ok (granted Hour) \<and>
   map fst (history (snd (CreateTemporaryAccess Hour (world_at instant (fake_cluster True) [])))) =
     [kubectl [''auth'', ''can-i'', ''create'', ''serviceaccount''],
      \<lparr>argv = [''whoami''], stdin = []\<rparr>,
      kubectl [''cluster-info''],
      kubectl [''config'', ''view'', ''--minify'', ''-o'', ''jsonpath={.clusters[0].name}''],
      kubectl [''config'', ''view'', ''--minify'', ''-o'',
               ''jsonpath={.clusters[0].cluster.server}''],
      exists_serviceaccount (granted Hour)] \<and>
   get_serviceaccount (granted Hour) \<notin>
     set (map fst (history (snd (CreateTemporaryAccess Hour
       (world_at instant (fake_cluster True) [])))))"
  by code_simp

text \<open>
  Claim C2, amended. When the check finds the service account of the derived name,
  \<open>CreateTemporaryAccess\<close> skips the manifest and the polling alike and returns the
  configuration at once, the check being the last command it runs. So of two calls in a
  row, the first finding the account absent and the second finding it present, exactly
  one runs \<open>kubectl apply\<close>.
\<close>

theorem CreateTemporaryAccess_applies_once:
  assumes first: "fst (prepareAccess d1 w) = Ok c1"
    and absent: "\<not> fst (serviceAccountExists c1 (snd (prepareAccess d1 w)))"
    and second: "fst (prepareAccess d2 (snd (CreateTemporaryAccess d1 w))) = Ok c2"
    and found: "fst (serviceAccountExists c2
                  (snd (prepareAccess d2 (snd (CreateTemporaryAccess d1 w)))))"
  shows "fst (CreateTemporaryAccess d2 (snd (CreateTemporaryAccess d1 w))) = Ok c2 \<and>
         history (snd (CreateTemporaryAccess d2 (snd (CreateTemporaryAccess d1 w)))) =
           history (snd (prepareAccess d2 (snd (CreateTemporaryAccess d1 w)))) @
             [(exists_serviceaccount c2,
               respond (snd (prepareAccess d2 (snd (CreateTemporaryAccess d1 w))))
                 (history (snd (prepareAccess d2 (snd (CreateTemporaryAccess d1 w)))))
                 (exists_serviceaccount c2))] \<and>
         applies (history (snd (CreateTemporaryAccess d2 (snd (CreateTemporaryAccess d1 w))))) =
           applies (history w) + 1"
proof -
  define w1 where "w1 = snd (CreateTemporaryAccess d1 w)"
  have a1: "applies (history w1) = Suc (applies (history w))"
    unfolding w1_def by (rule CreateTemporaryAccess_absent [OF first absent])
  have r2: "CreateTemporaryAccess d2 w1 =
      (Ok c2, snd (serviceAccountExists c2 (snd (prepareAccess d2 w1))))"
    by (rule CreateTemporaryAccess_found) (use second found in \<open>simp_all add: w1_def\<close>)
  have a2: "applies (history (snd (CreateTemporaryAccess d2 w1))) = applies (history w1)"
    by (simp add: r2 serviceAccountExists_applies prepareAccess_applies)
  show ?thesis
    using r2 a1 a2 by (simp add: w1_def [symmetric] serviceAccountExists_history)
qed


theorem CreateTemporaryAccess_applies_once_witness:
  "fst (CreateTemporaryAccess Hour
         (snd (CreateTemporaryAccess Hour (world_at instant (fake_cluster False) [])))) =
     Ok (granted Hour) \<and>
   applies (history (snd (CreateTemporaryAccess Hour
         (snd (CreateTemporaryAccess Hour (world_at instant (fake_cluster False) [])))))) = 1"
proof -
  have 1: "fst (prepareAccess Hour (world_at instant (fake_cluster False) [])) =
      Ok (granted Hour)"
    by code_simp
  have 2: "\<not> fst (serviceAccountExists (granted Hour)
      (snd (prepareAccess Hour (world_at instant (fake_cluster False) []))))"
    by code_simp
  have 3: "fst (prepareAccess Hour
      (snd (CreateTemporaryAccess Hour (world_at instant (fake_cluster False) [])))) =
      Ok (granted Hour)"
    by code_simp
  have 4: "fst (serviceAccountExists (granted Hour) (snd (prepareAccess Hour
      (snd (CreateTemporaryAccess Hour (world_at instant (fake_cluster False) []))))))"
    by code_simp
  have 5: "applies (history (world_at instant (fake_cluster False) [])) = 0"
    by (simp add: world_at_def applies_def)
  note once = CreateTemporaryAccess_applies_once [OF 1 2 3 4]
  from once [THEN conjunct1] once [THEN conjunct2, THEN conjunct2] 5
  show ?thesis by simp
qed

section \<open>Properties of the token issue\<close>

lemma waitAttempts_clock:
  "waitAttempts n config w = (r, w') \<Longrightarrow>
     reads w' = reads w \<and> clock w' = clock w \<and> respond w' = respond w"
proof (induction n arbitrary: w)
  case 0
  then show ?case by simp
next
  case (Suc n)
  obtain r1 w1 where r: "run (get_serviceaccount config) w = (r1, w1)"
    by (cases "run (get_serviceaccount config) w")
  then have f: "reads w1 = reads w" "clock w1 = clock w" "respond w1 = respond w"
    by (auto simp: run_def Let_def)
  show ?case
  proof (cases "err r1 = None \<and> 0 < length (stdout r1)")
    case True
    with Suc.prems r f show ?thesis by auto
  next
    case False
    with Suc.prems r have "waitAttempts n config w1 = (r, w')" by (auto simp: Sleep_def)
    from Suc.IH [OF this] f show ?thesis by simp
  qed
qed

lemma whole_seconds_mono: "a \<le> b \<Longrightarrow> whole_seconds a \<le> whole_seconds b"
proof -
  assume ab: "a \<le> b"
  have pos: "0 \<le> x \<Longrightarrow> whole_seconds x = x div Second" for x
    by (cases "x = 0") (simp_all add: whole_seconds_def)
  have neg: "x < 0 \<Longrightarrow> whole_seconds x = - ((- x) div Second)" for x
    by (simp add: whole_seconds_def)
  consider "0 \<le> a" | "a < 0" "0 \<le> b" | "b < 0" using ab by linarith
  then show ?thesis
  proof cases
    case 1
    with ab show ?thesis by (simp add: pos zdiv_mono1 Second_def)
  next
    case 2
    have "whole_seconds a \<le> 0" using 2(1) by (simp add: neg Second_def)
    moreover have "0 \<le> whole_seconds b" using 2(2) by (simp add: pos Second_def)
    ultimately show ?thesis by simp
  next
    case 3
    with ab have "a < 0" by simp
    with 3 ab show ?thesis by (simp add: neg zdiv_mono1 Second_def)
  qed
qed

lemma whole_seconds_exact: "whole_seconds (n * Second) = n"
  by (cases "n = 0"; cases "0 < n") (auto simp: whole_seconds_def Second_def sgn_if)

lemma Sub_le: "x - t \<le> d \<Longrightarrow> 0 \<le> d \<Longrightarrow> Sub x t \<le> d"
  by (auto simp: Sub_def minDuration_def)

lemma whole_seconds_below:
  assumes "x - t < 10 * Minute"
  shows "whole_seconds (Sub x t) < 600"
proof -
  have "Sub x t \<le> 600 * Second - 1"
    using assms by (intro Sub_le) (simp_all add: Minute_def Second_def)
  from whole_seconds_mono [OF this]
  have "whole_seconds (Sub x t) \<le> whole_seconds (600 * Second - 1)" .
  also have "whole_seconds (600 * Second - 1) = 599"
    by (simp add: whole_seconds_def Second_def)
  finally show ?thesis by simp
qed

lemma last_create_token: "last (argv (create_token c n)) = Itoa n @ ''s''"
  by (simp add: create_token_def kubectl_def)

text \<open>
  Claim C4. For a session whose remaining lifetime \<open>expiresAt - now\<close> is below ten
  minutes when the token is issued (the service account having answered the polling),
  \<open>GetTemporaryToken\<close> asks for a token of exactly 600 seconds and sets \<open>ExpiresAt\<close> of
  the session to the next reading of the clock plus ten minutes, which does not lower it;
  the verification of the expiry of the token is run against that new \<open>ExpiresAt\<close>.
\<close>

theorem GetTemporaryToken_floor:
  fixes config :: ServiceAccountConfig and w :: world
  defines "config1 \<equiv> config\<lparr>ExpiresAt := clock w (Suc (reads w)) + 10 * Minute\<rparr>"
  defines "w1 \<equiv> snd (waitForServiceAccount config w)"
  defines "r \<equiv> respond w (history w1) (create_token config1 600)"
  assumes ready: "fst (waitForServiceAccount config w) = None"
    and short: "ExpiresAt config - clock w (reads w) < 10 * Minute"
    and mono: "clock w (reads w) \<le> clock w (Suc (reads w))"
  shows "fst (snd (GetTemporaryToken config w)) = config1 \<and>
         ExpiresAt config \<le> ExpiresAt config1 \<and>
         history (snd (snd (GetTemporaryToken config w))) =
           history w1 @ [(create_token config1 600, r)] \<and>
         last (argv (create_token config1 600)) = ''600s'' \<and>
         fst (GetTemporaryToken config w) =
           (case err r of
              Some e \<Rightarrow> Err (Errorf (''error creating token: %v'' @ nl @ ''Output: %s'')
                              [ArgErr e, ArgStr (stderr r)])
            | None \<Rightarrow>
                (case verifyTokenExpiry (TrimSpace (stdout r))
                        (clock w (Suc (reads w)) + 10 * Minute) of
                   Some e \<Rightarrow> Err (Errorf ''token verification failed: %v'' [ArgErr e])
                 | None \<Rightarrow> Ok (TrimSpace (stdout r))))"
proof -
  have wt: "waitForServiceAccount config w = (None, w1)"
    using ready by (cases "waitForServiceAccount config w") (simp add: w1_def)
  then have f: "reads w1 = reads w" "clock w1 = clock w" "respond w1 = respond w"
    using waitAttempts_clock [of 10 config w None w1] by (simp_all add: waitForServiceAccount_def)
  have below: "whole_seconds (Sub (ExpiresAt config) (clock w (reads w))) < 600"
    by (rule whole_seconds_below [OF short])
  have le: "ExpiresAt config \<le> ExpiresAt config1"
    using short mono by (simp add: config1_def)
  have six: "last (argv (create_token config1 600)) = ''600s''"
    by (simp add: last_create_token Itoa_def decimal.simps)
  have e1: "ExpiresAt config1 = clock w (Suc (reads w)) + 10 * Minute"
    by (simp add: config1_def)
  show ?thesis
    using below le six
    by (simp add: GetTemporaryToken_def wt Until_def time_Now_def f run_def Let_def
        config1_def [symmetric] r_def [symmetric] e1 split: option.splits)
qed


theorem GetTemporaryToken_floor_witness:
  "fst (GetTemporaryToken (granted (5 * Minute)) (world_at instant (fake_cluster True) [])) =
     Ok ''h.eyJleHAiOjE3MDAwMDA2MDB9.s'' \<and>
   fst (snd (GetTemporaryToken (granted (5 * Minute))
              (world_at instant (fake_cluster True) []))) = granted (10 * Minute) \<and>
   map fst (history (snd (snd (GetTemporaryToken (granted (5 * Minute))
              (world_at instant (fake_cluster True) []))))) =
     [get_serviceaccount (granted (5 * Minute)), create_token (granted (10 * Minute)) 600]"
proof -
  have 1: "fst (waitForServiceAccount (granted (5 * Minute))
      (world_at instant (fake_cluster True) [])) = None"
    by code_simp
  have 2: "ExpiresAt (granted (5 * Minute)) -
      clock (world_at instant (fake_cluster True) [])
        (reads (world_at instant (fake_cluster True) [])) < 10 * Minute"
    by code_simp
  have 3: "clock (world_at instant (fake_cluster True) [])
        (reads (world_at instant (fake_cluster True) [])) \<le>
      clock (world_at instant (fake_cluster True) [])
        (Suc (reads (world_at instant (fake_cluster True) [])))"
    by (simp add: world_at_def)
  have 4: "(granted (5 * Minute))\<lparr>ExpiresAt :=
      clock (world_at instant (fake_cluster True) [])
        (Suc (reads (world_at instant (fake_cluster True) []))) + 10 * Minute\<rparr> =
      granted (10 * Minute)"
    by (simp add: granted_def world_at_def)
  have 5: "fst (GetTemporaryToken (granted (5 * Minute))
      (world_at instant (fake_cluster True) [])) = Ok ''h.eyJleHAiOjE3MDAwMDA2MDB9.s''"
    by code_simp
  have 6: "map fst (history (snd (waitForServiceAccount (granted (5 * Minute))
      (world_at instant (fake_cluster True) [])))) = [get_serviceaccount (granted (5 * Minute))]"
    by code_simp
  note floor = GetTemporaryToken_floor [OF 1 2 3, unfolded 4]
  from floor [THEN conjunct1] floor [THEN conjunct2, THEN conjunct2, THEN conjunct1] 5 6
  show ?thesis by simp
qed

section \<open>Properties of the session duration\<close>

lemma requests_run: "run c w = (r, w') \<Longrightarrow>
    requests (history w') = requests (history w) @ (if is_token_request c then [(c, r)] else [])"
  by (auto simp: run_def Let_def requests_def)

lemma requests_run_snd:
  "\<not> is_token_request c \<Longrightarrow> requests (history (snd (run c w))) = requests (history w)"
  by (auto simp: run_def Let_def requests_def)

lemma not_request:
  "\<not> is_token_request (kubectl (''auth'' # xs))"
  "\<not> is_token_request \<lparr>argv = [''whoami''], stdin = i\<rparr>"
  "\<not> is_token_request (kubectl [''cluster-info''])"
  "\<not> is_token_request (kubectl (''config'' # xs))"
  "\<not> is_token_request (kubectl (''get'' # xs))"
  "\<not> is_token_request (apply_manifest c)"
  "\<not> is_token_request (os_call ''config.LoadConfig'' as i)"
  "\<not> is_token_request (os_call ''downloadFromS3'' as i)"
  "\<not> is_token_request (os_call ''os.WriteFile'' as i)"
  "\<not> is_token_request (os_call ''os.Getenv'' as i)"
  "\<not> is_token_request (os_call ''os.Setenv'' as i)"
  "\<not> is_token_request (os_call ''os.Remove'' as i)"
  by (simp_all add: is_token_request_def kubectl_def apply_manifest_def os_call_def)

lemma is_request: "is_token_request (create_token c n)"
  by (simp add: is_token_request_def create_token_def kubectl_def)

lemma time_Now_requests: "time_Now w = (t, w') \<Longrightarrow> history w' = history w"
  by (auto simp: time_Now_def)

lemma verifyClusterAccess_requests:
  "verifyClusterAccess w = (r, w') \<Longrightarrow> requests (history w') = requests (history w)"
  by (auto simp: verifyClusterAccess_def not_request split: prod.splits option.splits
      dest!: requests_run)

lemma getCurrentUser_requests:
  "getCurrentUser w = (r, w') \<Longrightarrow> requests (history w') = requests (history w)"
  by (auto simp: getCurrentUser_def not_request split: prod.splits option.splits
      dest!: requests_run)

lemma getClusterInfo_requests:
  "getClusterInfo w = (r, w') \<Longrightarrow> requests (history w') = requests (history w)"
  unfolding getClusterInfo_def
  by (auto simp: not_request split: prod.splits option.splits if_splits dest!: requests_run)

lemma waitAttempts_requests:
  "waitAttempts n config w = (r, w') \<Longrightarrow> requests (history w') = requests (history w)"
proof (induction n arbitrary: w)
  case 0
  then show ?case by simp
next
  case (Suc n)
  obtain r1 w1 where r: "run (get_serviceaccount config) w = (r1, w1)"
    by (cases "run (get_serviceaccount config) w")
  from requests_run [OF r] have a: "requests (history w1) = requests (history w)"
    by (simp add: get_serviceaccount_def not_request)
  show ?case
  proof (cases "err r1 = None \<and> 0 < length (stdout r1)")
    case True
    with Suc.prems r a show ?thesis by auto
  next
    case False
    with Suc.prems r have "waitAttempts n config w1 = (r, w')" by (auto simp: Sleep_def)
    from Suc.IH [OF this] a show ?thesis by simp
  qed
qed

lemma prepareAccess_requests:
  "prepareAccess d w = (r, w') \<Longrightarrow> requests (history w') = requests (history w)"
  unfolding prepareAccess_def
  by (auto split: prod.splits option.splits outcome.splits
      dest!: verifyClusterAccess_requests getCurrentUser_requests getClusterInfo_requests
        time_Now_requests)

lemma CreateTemporaryAccess_requests:
  "CreateTemporaryAccess d w = (r, w') \<Longrightarrow> requests (history w') = requests (history w)"
  unfolding CreateTemporaryAccess_def serviceAccountExists_def createResources_def
    waitForServiceAccount_def
  by (auto split: prod.splits option.splits outcome.splits bool.splits
      simp: not_request exists_serviceaccount_def
      dest!: prepareAccess_requests requests_run waitAttempts_requests)

lemma prepareAccess_expiry:
  assumes "prepareAccess d w = (Ok config, w')"
  shows "2 \<le> reads w' \<and> ExpiresAt config = clock w (reads w' - 2) + d"
  using assms unfolding prepareAccess_def
  by (auto split: prod.splits option.splits outcome.splits simp: time_Now_def frame_def
      dest!: verifyClusterAccess_frame getCurrentUser_frame getClusterInfo_frame)

lemma CreateTemporaryAccess_expiry:
  assumes "CreateTemporaryAccess d w = (Ok config, w')"
  shows "\<exists>i. i < reads w' \<and> ExpiresAt config = clock w i + d"
proof -
  obtain r5 w5 where p: "prepareAccess d w = (r5, w5)" by (cases "prepareAccess d w")
  with assms have r5: "r5 = Ok config"
    unfolding CreateTemporaryAccess_def
    by (auto split: prod.splits option.splits outcome.splits bool.splits)
  from prepareAccess_expiry [OF p [unfolded r5]]
  obtain i where i: "i < reads w5" "ExpiresAt config = clock w i + d"
    by (intro that [of "reads w5 - 2"]) simp_all
  have "frame w5 w'"
    using assms p r5 unfolding CreateTemporaryAccess_def
    by (auto split: prod.splits option.splits outcome.splits bool.splits
        dest!: serviceAccountExists_frame createResources_frame waitForServiceAccount_frame
        simp: frame_def)
  then have "reads w5 \<le> reads w'" by (simp add: frame_def)
  with i show ?thesis by (intro exI [of _ i]) simp
qed


lemma GetTemporaryToken_requests:
  assumes "GetTemporaryToken config w = (res, config1, w')"
  shows "requests (history w') = requests (history w) \<or>
         (\<exists>r. requests (history w') = requests (history w) @
            [(create_token config1
                (max 600 (whole_seconds (Sub (ExpiresAt config) (clock w (reads w))))), r)])"
proof -
  obtain r1 w1 where wt: "waitForServiceAccount config w = (r1, w1)"
    by (cases "waitForServiceAccount config w")
  then have f: "reads w1 = reads w" "clock w1 = clock w"
    "requests (history w1) = requests (history w)"
    using waitAttempts_clock [of 10 config w r1 w1] waitAttempts_requests [of 10 config w r1 w1]
    by (simp_all add: waitForServiceAccount_def)
  show ?thesis
  proof (cases r1)
    case (Some e)
    with assms wt f show ?thesis by (simp add: GetTemporaryToken_def)
  next
    case None
    show ?thesis
      using assms wt None f
      by (auto simp: GetTemporaryToken_def Until_def time_Now_def Let_def is_request max_def
          split: prod.splits if_splits option.splits dest!: requests_run)
  qed
qed


lemma issue_ttl:
  assumes mono: "\<forall>i j. i \<le> j \<longrightarrow> clock w i \<le> clock w j"
    and d: "0 \<le> d" "d \<le> 24 * Hour"
    and create: "CreateTemporaryAccess d w = (Ok sa, w6)"
    and token: "GetTemporaryToken sa w6 = (res, sa1, w7)"
  shows "requests (history w7) = requests (history w) \<or>
         (\<exists>c n r. requests (history w7) = requests (history w) @ [(c, r)] \<and>
            last (argv c) = Itoa n @ ''s'' \<and> 600 \<le> n \<and> n \<le> 86400 \<and>
            (d \<le> 10 * Minute \<longrightarrow> n = 600))"
proof -
  from CreateTemporaryAccess_expiry [OF create]
  obtain i where i: "i < reads w6" "ExpiresAt sa = clock w i + d" by blast
  have c6: "clock w6 = clock w"
    using CreateTemporaryAccess_frame [OF create] by (simp add: frame_def)
  have r6: "requests (history w6) = requests (history w)"
    by (rule CreateTemporaryAccess_requests [OF create])
  define n where "n = max 600 (whole_seconds (Sub (ExpiresAt sa) (clock w6 (reads w6))))"
  have le: "clock w i \<le> clock w (reads w6)" using mono i(1) by simp
  have up: "Sub (ExpiresAt sa) (clock w6 (reads w6)) \<le> d"
    using le d by (intro Sub_le) (simp_all add: i(2) c6)
  from whole_seconds_mono [OF up]
  have ws: "whole_seconds (Sub (ExpiresAt sa) (clock w6 (reads w6))) \<le> whole_seconds d" .
  have "whole_seconds d \<le> whole_seconds (86400 * Second)"
    using d by (intro whole_seconds_mono) (simp add: Hour_def Minute_def)
  with ws have n_hi: "n \<le> 86400"
    by (simp add: n_def whole_seconds_exact)
  have n_lo: "600 \<le> n" by (simp add: n_def)
  have n_floor: "n = 600" if "d \<le> 10 * Minute"
  proof -
    have "whole_seconds d \<le> whole_seconds (600 * Second)"
      using that by (intro whole_seconds_mono) (simp add: Minute_def)
    with ws show ?thesis by (simp add: n_def whole_seconds_exact)
  qed
  from GetTemporaryToken_requests [OF token]
  show ?thesis
  proof
    assume "requests (history w7) = requests (history w6)"
    with r6 show ?thesis by simp
  next
    assume "\<exists>r. requests (history w7) = requests (history w6) @
        [(create_token sa1
            (max 600 (whole_seconds (Sub (ExpiresAt sa) (clock w6 (reads w6))))), r)]"
    then obtain r where "requests (history w7) = requests (history w) @ [(create_token sa1 n, r)]"
      by (auto simp: n_def r6)
    with n_lo n_hi n_floor last_create_token [of sa1 n] show ?thesis by blast
  qed
qed

lemma activate_deferred_requests:
  "requests (history (activate_deferred a b w)) = requests (history w)"
  by (simp add: activate_deferred_def requests_run_snd not_request)

text \<open>
  Claim C8, as stated, for a duration above 24 hours: it is to be clamped down to 24 hours
  rather than refused. \<open>ActivateCmd\<close> with 25 hours returns at once: nothing is run and
  no token is issued.
\<close>

theorem ActivateCmd_refuses_long_session:
  "24 * Hour < 25 * Hour \<and>
   ActivateCmd sample_paths (parse_as sample_kubeconfig) print_token ''a.cfg'' (25 * Hour, None)
       (world_at instant (fake_cluster True) []) =
     Returns () (world_at instant (fake_cluster True) []) \<and>
   history (world_at instant (fake_cluster True) []) = []"
  by (simp add: ActivateCmd_def Hour_def Minute_def Second_def world_at_def)

text \<open>
  Claim C8, amended. \<open>ActivateCmd\<close> refuses a session duration above 24 hours, as it
  does one that is not positive or did not parse: it returns with nothing run. For every
  other duration it asks for at most one token, and the seconds it asks for lie between
  600 and 86400; a duration of at most ten minutes gives exactly 600. The clock does not
  run backwards.
\<close>

theorem ActivateCmd_token_ttl:
  assumes mono: "\<forall>i j. i \<le> j \<longrightarrow> clock w i \<le> clock w j"
  shows "(flagErr \<noteq> None \<or> d \<le> 0 \<or> 24 * Hour < d \<longrightarrow>
            ActivateCmd ps unmarshal marshal name (d, flagErr) w = Returns () w) \<and>
         (\<forall>w'. ActivateCmd ps unmarshal marshal name (d, flagErr) w = Returns () w' \<longrightarrow>
            requests (history w') = requests (history w) \<or>
            (\<exists>c n r. requests (history w') = requests (history w) @ [(c, r)] \<and>
               last (argv c) = Itoa n @ ''s'' \<and> 600 \<le> n \<and> n \<le> 86400 \<and>
               (d \<le> 10 * Minute \<longrightarrow> n = 600)))"
proof (intro conjI allI impI)
  assume "flagErr \<noteq> None \<or> d \<le> 0 \<or> 24 * Hour < d"
  then show "ActivateCmd ps unmarshal marshal name (d, flagErr) w = Returns () w"
    by (auto simp: ActivateCmd_def)
next
  fix w'
  assume run: "ActivateCmd ps unmarshal marshal name (d, flagErr) w = Returns () w'"
  have first: "ActivateCmd ps unmarshal marshal name (d, flagErr) w = Returns () w"
    if "flagErr \<noteq> None \<or> d \<le> 0 \<or> 24 * Hour < d"
    using that by (auto simp: ActivateCmd_def)
  let ?goal = "requests (history w') = requests (history w) \<or>
            (\<exists>c n r. requests (history w') = requests (history w) @ [(c, r)] \<and>
               last (argv c) = Itoa n @ ''s'' \<and> 600 \<le> n \<and> n \<le> 86400 \<and>
               (d \<le> 10 * Minute \<longrightarrow> n = 600))"
  show ?goal
  proof (cases "flagErr \<noteq> None \<or> d \<le> 0 \<or> 24 * Hour < d")
    case True
    from first [OF True] run show ?thesis by simp
  next
    case False
    define d1 where "d1 = (if d < 10 * Minute then 10 * Minute else d)"
    have d1: "0 \<le> d1" "d1 \<le> 24 * Hour" "d \<le> 10 * Minute \<Longrightarrow> d1 \<le> 10 * Minute"
      using False by (auto simp: d1_def Hour_def Minute_def Second_def)
    obtain r1 w1 where a1: "run (os_call ''config.LoadConfig'' [] []) w = (r1, w1)"
      by (cases "run (os_call ''config.LoadConfig'' [] []) w")
    obtain r2 w2 where a2: "run (os_call ''downloadFromS3'' [name] []) w1 = (r2, w2)"
      by (cases "run (os_call ''downloadFromS3'' [name] []) w1")
    define temp where "temp = join ps (CacheDir ps) (name @ ''.tmp'')"
    obtain r3 w3 where a3: "run (os_call ''os.WriteFile'' [temp] (stdout r2)) w2 = (r3, w3)"
      by (cases "run (os_call ''os.WriteFile'' [temp] (stdout r2)) w2")
    obtain r4 w4 where a4: "run (os_call ''os.Getenv'' [''KUBECONFIG''] []) w3 = (r4, w4)"
      by (cases "run (os_call ''os.Getenv'' [''KUBECONFIG''] []) w3")
    obtain r5 w5 where a5: "run (os_call ''os.Setenv'' [''KUBECONFIG'', temp] []) w4 = (r5, w5)"
      by (cases "run (os_call ''os.Setenv'' [''KUBECONFIG'', temp] []) w4")
    note rq = requests_run [OF a1] requests_run [OF a2] requests_run [OF a3]
      requests_run [OF a4] requests_run [OF a5]
    have q5: "requests (history w5) = requests (history w)"
      "requests (history w1) = requests (history w)" "requests (history w2) = requests (history w)"
      "requests (history w3) = requests (history w)"
      using rq by (simp_all add: not_request)
    have f5: "frame w w5"
      using run_frame [OF a1] run_frame [OF a2] run_frame [OF a3] run_frame [OF a4]
        run_frame [OF a5]
      by (simp add: frame_def)
    then have mono5: "\<forall>i j. i \<le> j \<longrightarrow> clock w5 i \<le> clock w5 j"
      using mono by (simp add: frame_def)
    obtain r6 w6 where a6: "CreateTemporaryAccess d1 w5 = (r6, w6)"
      by (cases "CreateTemporaryAccess d1 w5")
    have q6: "requests (history w6) = requests (history w)"
      using CreateTemporaryAccess_requests [OF a6] q5 by simp
    show ?thesis
    proof (cases "err r1 \<noteq> None \<or> ValidateKubeconfigName name \<noteq> None \<or> err r2 \<noteq> None
        \<or> err r3 \<noteq> None")
      case True
      with run False a1 a2 a3 q5 show ?thesis
        by (auto simp: ActivateCmd_def Let_def temp_def [symmetric] split: if_splits)
    next
      case ok: False
      show ?thesis
      proof (cases r6)
        case (Err e)
        with run False ok a1 a2 a3 a4 a5 a6 q6 show ?thesis
          by (auto simp: ActivateCmd_def Let_def temp_def [symmetric] d1_def [symmetric]
              activate_deferred_requests)
      next
        case (Panic m)
        with run False ok a1 a2 a3 a4 a5 a6 show ?thesis
          by (simp add: ActivateCmd_def Let_def temp_def [symmetric] d1_def [symmetric])
      next
        case (Ok sa)
        obtain res sa1 w7 where a7: "GetTemporaryToken sa w6 = (res, sa1, w7)"
          by (cases "GetTemporaryToken sa w6") auto
        from issue_ttl [OF mono5 d1(1,2) a6 [unfolded Ok] a7]
        have ttl: "requests (history w7) = requests (history w) \<or>
            (\<exists>c n r. requests (history w7) = requests (history w) @ [(c, r)] \<and>
               last (argv c) = Itoa n @ ''s'' \<and> 600 \<le> n \<and> n \<le> 86400 \<and>
               (d \<le> 10 * Minute \<longrightarrow> n = 600))"
          using d1(3) q5 by auto
        have "requests (history w') = requests (history w7)"
          using run False ok a1 a2 a3 a4 a5 a6 Ok a7
          by (cases res; cases "ModifyKubeconfigWithToken unmarshal marshal (stdout r2)
                (case res of Ok t \<Rightarrow> t | _ \<Rightarrow> [])")
             (auto simp: ActivateCmd_def Let_def temp_def [symmetric] d1_def [symmetric]
              activate_deferred_requests requests_run_snd not_request)
        with ttl show ?thesis by simp
      qed
    qed
  qed
qed


theorem ActivateCmd_token_ttl_witness:
  "ActivateCmd sample_paths (parse_as sample_kubeconfig) print_token ''a.cfg'' (0, None)
       (world_at instant (fake_cluster True) []) =
     Returns () (world_at instant (fake_cluster True) []) \<and>
   map_option (map (\<lambda>(c, r). last (argv c)) \<circ> requests)
       (history_after (ActivateCmd sample_paths (parse_as sample_kubeconfig) print_token
          ''a.cfg'' (5 * Minute, None) (world_at instant (fake_cluster True) []))) =
     Some [''600s'']"
proof -
  have mono: "\<forall>i j. i \<le> j \<longrightarrow> clock (world_at instant (fake_cluster True) []) i
      \<le> clock (world_at instant (fake_cluster True) []) j"
    by (simp add: world_at_def)
  have issued: "map_option (map (\<lambda>(c, r). last (argv c)) \<circ> requests)
       (history_after (ActivateCmd sample_paths (parse_as sample_kubeconfig) print_token
          ''a.cfg'' (5 * Minute, None) (world_at instant (fake_cluster True) []))) =
     Some [''600s'']"
    by code_simp
  from ActivateCmd_token_ttl [OF mono, where d = 0 and flagErr = None and ps = sample_paths
      and unmarshal = "parse_as sample_kubeconfig" and marshal = print_token
      and name = "''a.cfg''", THEN conjunct1] issued
  show ?thesis by simp
qed

end
